theory Spec2Isabelle
  imports Main "HOL-Library.Word" "HOL-Library.List_Lexorder" "HOL-Library.Char_ord"
    "HOL-Library.Sublist" "HOL-Library.Multiset"
begin

chapter \<open>Telegraf plugins and pipeline: the model\<close>

text \<open>
  A shallow embedding of the Go sources at hand: the Homie helpers of the MQTT output,
  the Prometheus client output and the DC/OS input. The development follows the sources
  function by function. Go maps are association lists with distinct keys (one admissible
  iteration order), errors are values of a sum type, and everything a function obtains
  from code outside the files at hand (HTTP clients, registries, the Unicode case table)
  is a parameter of its model. The metric constructor, the accumulator, the UDP client
  and the buffer have no source among the files; their models say so and name what they
  are read from. All definitions come first; the properties follow in the second
  chapter.
\<close>

section \<open>MQTT output, Homie identifiers: \<^verbatim>\<open>normalizeID\<close>\<close>

text \<open>
  A Go string is read here as the sequence of runes that \<^verbatim>\<open>strings.ToLower\<close> and the
  regular expression engine iterate over (an invalid byte reads as U+FFFD). Runes are
  code points. \<^verbatim>\<open>unicode.ToLower\<close> lowers ASCII letters itself and consults the Unicode
  case table for every other rune; that table belongs to the Go library and is the
  parameter \<open>caseTable\<close>.
\<close>

type_synonym rune = nat

definition isLowerOrDigit :: "rune \<Rightarrow> bool" where
  "isLowerOrDigit r = ((97 \<le> r \<and> r \<le> 122) \<or> (48 \<le> r \<and> r \<le> 57))"

definition hyphen :: rune where
  "hyphen = 45"

definition toLowerRune :: "(rune \<Rightarrow> rune) \<Rightarrow> rune \<Rightarrow> rune" where
  "toLowerRune caseTable r =
     (if r \<le> 127 then (if 65 \<le> r \<and> r \<le> 90 then r + 32 else r) else caseTable r)"

definition ToLower :: "(rune \<Rightarrow> rune) \<Rightarrow> rune list \<Rightarrow> rune list" where
  "ToLower caseTable s = map (toLowerRune caseTable) s"

text \<open>
  \<^verbatim>\<open>idRe = regexp.MustCompile(`([^a-z0-9]+)`)\<close> and
  \<^verbatim>\<open>idRe.ReplaceAllString(id, "-")\<close>: every maximal run of runes outside
  \<open>a-z0-9\<close> becomes one hyphen.
\<close>

function idRe_ReplaceAllString :: "rune list \<Rightarrow> rune list" where
  "idRe_ReplaceAllString [] = []"
| "idRe_ReplaceAllString (c # cs) =
     (if isLowerOrDigit c then c # idRe_ReplaceAllString cs
      else hyphen # idRe_ReplaceAllString (dropWhile (\<lambda>d. \<not> isLowerOrDigit d) cs))"
  by pat_completeness auto
termination
  by (relation "measure length") (auto simp: length_dropWhile_le less_Suc_eq_le)

text \<open>\<^verbatim>\<open>strings.Trim(id, "-")\<close> strips the hyphens at both ends.\<close>

definition TrimLeft :: "rune list \<Rightarrow> rune list" where
  "TrimLeft s = dropWhile (\<lambda>c. c = hyphen) s"

definition TrimRight :: "rune list \<Rightarrow> rune list" where
  "TrimRight s = rev (dropWhile (\<lambda>c. c = hyphen) (rev s))"

definition Trim :: "rune list \<Rightarrow> rune list" where
  "Trim s = TrimRight (TrimLeft s)"

text \<open>
  \<^verbatim>\<open>
  func normalizeID(raw string) string {
      id := strings.ToLower(raw)
      id = idRe.ReplaceAllString(id, "-")
      return strings.Trim(id, "-")
  }
  \<close>
\<close>

definition normalizeID :: "(rune \<Rightarrow> rune) \<Rightarrow> rune list \<Rightarrow> rune list" where
  "normalizeID caseTable raw = Trim (idRe_ReplaceAllString (ToLower caseTable raw))"

text \<open>
  The shape of the results: lowercase letters, digits and hyphens, no two hyphens in a
  row. It is the invariant that makes a second pass change nothing.
\<close>

fun homieID :: "rune list \<Rightarrow> bool" where
  "homieID [] = True"
| "homieID [c] = (isLowerOrDigit c \<or> c = hyphen)"
| "homieID (c # d # cs) =
     ((isLowerOrDigit c \<or> c = hyphen) \<and> \<not> (c = hyphen \<and> d = hyphen) \<and> homieID (d # cs))"

text \<open>An ASCII literal as runes.\<close>

definition runes :: "string \<Rightarrow> rune list" where
  "runes s = map of_char s"

section \<open>Prometheus client output: \<^verbatim>\<open>PrometheusClient.Init\<close>\<close>

text \<open>A Go \<^verbatim>\<open>error\<close> is its message; \<^verbatim>\<open>nil\<close> is \<open>None\<close>.\<close>

type_synonym go_error = string

text \<open>\<^verbatim>\<open>config.Duration\<close> is an \<^verbatim>\<open>int64\<close> count of nanoseconds.\<close>

type_synonym Duration = "64 word"

definition Second :: Duration where
  "Second = 1000000000"

definition defaultPath :: string where
  "defaultPath = ''/metrics''"

definition defaultReadTimeout :: Duration where
  "defaultReadTimeout = 10 * Second"

definition defaultWriteTimeout :: Duration where
  "defaultWriteTimeout = 10 * Second"

text \<open>
  The fields of the plugin that \<^verbatim>\<open>Init\<close> reads or writes, and of the
  \<^verbatim>\<open>http.Server\<close> it builds. The handler is kept as the list of patterns registered
  on the mux, the TLS configuration as an opaque value.
\<close>

datatype collector_version = V1 | V2

record http_Server =
  Addr :: string
  Handler :: "string list"
  TLSConfig :: "string option"
  srv_ReadTimeout :: Duration
  srv_WriteTimeout :: Duration

record PrometheusClient =
  Listen :: string
  ReadTimeout :: Duration
  WriteTimeout :: Duration
  MetricVersion :: int
  IPRange :: "string list"
  Path :: string
  CollectorsExclude :: "string list"
  server :: "http_Server option"
  collector :: "collector_version option"

text \<open>
  What \<^verbatim>\<open>Init\<close> obtains from other packages: each registration with the Prometheus
  registry, \<^verbatim>\<open>TypeMappings.Init\<close>, \<^verbatim>\<open>net.ParseCIDR\<close>, the secret store and
  \<^verbatim>\<open>TLSConfig\<close> may fail, and \<^verbatim>\<open>ServeMux.Handle\<close> panics on a pattern it
  rejects (given the patterns registered before).
\<close>

record init_env =
  registerGoCollector :: "go_error option"
  registerProcessCollector :: "go_error option"
  typeMappingsInit :: "go_error option"
  registerCollector :: "collector_version \<Rightarrow> go_error option"
  parseCIDR :: "string \<Rightarrow> go_error + string"
  basicPasswordGet :: "go_error + string"
  muxHandlePanics :: "string list \<Rightarrow> string \<Rightarrow> bool"
  tlsConfig :: "go_error + string option"

datatype outcome = Returned "go_error option" | Panicked

text \<open>
  The loop over \<^verbatim>\<open>defaultCollectors\<close>, in the order \<open>gocollector\<close>, \<open>process\<close>
  (Go leaves the order of a map open; it only decides which of two errors is returned).
\<close>

fun registerDefaults :: "init_env \<Rightarrow> string list \<Rightarrow> go_error option" where
  "registerDefaults env [] = None"
| "registerDefaults env (c # cs) =
     (if c = ''gocollector'' then
        (case registerGoCollector env of Some e \<Rightarrow> Some e | None \<Rightarrow> registerDefaults env cs)
      else if c = ''process'' then
        (case registerProcessCollector env of Some e \<Rightarrow> Some e | None \<Rightarrow> registerDefaults env cs)
      else Some (''unrecognized collector '' @ c))"

fun parseIPRange :: "init_env \<Rightarrow> string list \<Rightarrow> go_error + string list" where
  "parseIPRange env [] = Inr []"
| "parseIPRange env (cidr # cidrs) =
     (case parseCIDR env cidr of
        Inl e \<Rightarrow> Inl (''error parsing ip_range: '' @ e)
      | Inr ipNet \<Rightarrow>
          (case parseIPRange env cidrs of Inl e \<Rightarrow> Inl e | Inr nets \<Rightarrow> Inr (ipNet # nets)))"

text \<open>
  \<^verbatim>\<open>switch p.MetricVersion { default: fallthrough; case 1: v1 ...; case 2: v2 ... }\<close>
\<close>

definition chooseCollector :: "PrometheusClient \<Rightarrow> collector_version" where
  "chooseCollector p = (if MetricVersion p = 2 then V2 else V1)"

text \<open>\<^verbatim>\<open>if p.Path == "" { p.Path = "/metrics" }\<close>\<close>

definition setDefaultPath :: "PrometheusClient \<Rightarrow> PrometheusClient" where
  "setDefaultPath p = (if Path p = [] then p\<lparr>Path := ''/metrics''\<rparr> else p)"

text \<open>
  \<^verbatim>\<open>
  if p.ReadTimeout < config.Duration(time.Second) {
      p.ReadTimeout = config.Duration(defaultReadTimeout)
  }
  if p.WriteTimeout < config.Duration(time.Second) {
      p.WriteTimeout = config.Duration(defaultWriteTimeout)
  }
  \<close>
  The comparison is the signed one of \<^verbatim>\<open>int64\<close>.
\<close>

definition setDefaultTimeouts :: "PrometheusClient \<Rightarrow> PrometheusClient" where
  "setDefaultTimeouts p =
     (let p' = (if ReadTimeout p <s Second then p\<lparr>ReadTimeout := defaultReadTimeout\<rparr> else p)
      in if WriteTimeout p' <s Second then p'\<lparr>WriteTimeout := defaultWriteTimeout\<rparr> else p')"

text \<open>
  \<^verbatim>\<open>p.server = &http.Server{Addr: p.Listen, Handler: mux, TLSConfig: tlsConfig,
  ReadTimeout: time.Duration(p.ReadTimeout), WriteTimeout: time.Duration(p.WriteTimeout)}\<close>
\<close>

definition newServer :: "string option \<Rightarrow> PrometheusClient \<Rightarrow> http_Server" where
  "newServer tlsCfg p =
     \<lparr>Addr = Listen p, Handler = [Path p, ''/''], TLSConfig = tlsCfg,
      srv_ReadTimeout = ReadTimeout p, srv_WriteTimeout = WriteTimeout p\<rparr>"

text \<open>
  \<^verbatim>\<open>Init\<close> itself, step by step as in the source. The plugin is returned as the
  call leaves it, also when an error or a panic ends the call early.
\<close>

definition Init :: "init_env \<Rightarrow> PrometheusClient \<Rightarrow> PrometheusClient \<times> outcome" where
  "Init env p =
    (case registerDefaults env
            (filter (\<lambda>c. c \<notin> set (CollectorsExclude p)) [''gocollector'', ''process'']) of
       Some e \<Rightarrow> (p, Returned (Some e))
     | None \<Rightarrow>
    (case typeMappingsInit env of
       Some e \<Rightarrow> (p, Returned (Some e))
     | None \<Rightarrow>
    (let p1 = p\<lparr>collector := Some (chooseCollector p)\<rparr>
     in case registerCollector env (chooseCollector p) of
       Some e \<Rightarrow> (p1, Returned (Some e))
     | None \<Rightarrow>
    (case parseIPRange env (IPRange p1) of
       Inl e \<Rightarrow> (p1, Returned (Some e))
     | Inr ipRange \<Rightarrow>
    (case basicPasswordGet env of
       Inl e \<Rightarrow> (p1, Returned (Some e))
     | Inr password \<Rightarrow>
    (let p2 = setDefaultPath p1
     in if muxHandlePanics env [] (Path p2) \<or> muxHandlePanics env [Path p2] ''/''
        then (p2, Panicked)
        else
    (case tlsConfig env of
       Inl e \<Rightarrow> (p2, Returned (Some e))
     | Inr tlsCfg \<Rightarrow>
    (let p3 = setDefaultTimeouts p2
     in (p3\<lparr>server := Some (newServer tlsCfg p3)\<rparr>, Returned None)))))))))"

text \<open>A run in which every collaborator succeeds, on a plugin with nothing configured.\<close>

definition env_ok :: init_env where
  "env_ok = \<lparr>registerGoCollector = None, registerProcessCollector = None,
     typeMappingsInit = None, registerCollector = (\<lambda>v. None),
     parseCIDR = (\<lambda>c. Inr c), basicPasswordGet = Inr ''secret'',
     muxHandlePanics = (\<lambda>ps pat. pat = [] \<or> pat \<in> set ps), tlsConfig = Inr None\<rparr>"

definition client_unset :: PrometheusClient where
  "client_unset = \<lparr>Listen = '':9273'', ReadTimeout = 0, WriteTimeout = 999999999,
     MetricVersion = 2, IPRange = [''10.0.0.0/8''], Path = [], CollectorsExclude = [''process''],
     server = None, collector = None\<rparr>"

section \<open>DC/OS input: \<^verbatim>\<open>createPoints\<close>, \<^verbatim>\<open>addMetrics\<close> and \<^verbatim>\<open>gatherContainers\<close>\<close>

text \<open>
  A Go map is an association list with distinct keys; the order of the list is one
  order in which \<^verbatim>\<open>range\<close> may visit the map. \<open>assign k v m\<close> is the statement
  \<^verbatim>\<open>m[k] = v\<close>: it replaces the value of a key that is present and adds the key
  otherwise. It has no failure result, as the Go statement has none.
\<close>

type_synonym ('k, 'v) gomap = "('k \<times> 'v) list"

fun assign :: "'k \<Rightarrow> 'v \<Rightarrow> ('k, 'v) gomap \<Rightarrow> ('k, 'v) gomap" where
  "assign k v [] = [(k, v)]"
| "assign k v ((k', v') # m) = (if k' = k then (k, v) # m else (k', v') # assign k v m)"

text \<open>
  The functions of package \<^verbatim>\<open>strings\<close> that \<^verbatim>\<open>createPoints\<close> calls, on byte
  strings: \<^verbatim>\<open>ReplaceAll\<close> for one-byte patterns, \<^verbatim>\<open>HasSuffix\<close>,
  \<^verbatim>\<open>HasPrefix\<close>, \<^verbatim>\<open>TrimPrefix\<close> and \<^verbatim>\<open>Join\<close>.
  \<^verbatim>\<open>sort.Strings\<close> is \<open>sort\<close> in the bytewise lexicographic order of strings.
\<close>

definition ReplaceAll_byte :: "string \<Rightarrow> char \<Rightarrow> char \<Rightarrow> string" where
  "ReplaceAll_byte s old new = map (\<lambda>c. if c = old then new else c) s"

definition HasSuffix :: "string \<Rightarrow> string \<Rightarrow> bool" where
  "HasSuffix s suf = (length suf \<le> length s \<and> drop (length s - length suf) s = suf)"

definition HasPrefix :: "string \<Rightarrow> string \<Rightarrow> bool" where
  "HasPrefix s pre = (length pre \<le> length s \<and> take (length pre) s = pre)"

definition TrimPrefix :: "string \<Rightarrow> string \<Rightarrow> string" where
  "TrimPrefix s pre = (if HasPrefix s pre then drop (length pre) s else s)"

fun Join :: "string list \<Rightarrow> string \<Rightarrow> string" where
  "Join [] sep = []"
| "Join [x] sep = x"
| "Join (x # y # ys) sep = x @ sep @ Join (y # ys) sep"

text \<open>
  The input of \<^verbatim>\<open>createPoints\<close>. A dimension is an \<^verbatim>\<open>interface{}\<close>; the type
  switch tells a string, a \<^verbatim>\<open>map[string]string\<close> and everything else apart.
  \<^verbatim>\<open>dp.Tags\<close> may be nil. The \<^verbatim>\<open>float64\<close> of a value is the type parameter
  \<open>'f\<close>: the code only copies it or converts it with \<^verbatim>\<open>int64(dp.Value)\<close>, which is the
  parameter \<open>toInt64\<close> of the functions below.
\<close>

datatype dimension = DimString string | DimMap "(string, string) gomap" | DimOther

record 'f dataPoint =
  dp_Name :: string
  dp_Tags :: "(string, string) gomap option"
  dp_Unit :: string
  dp_Value :: 'f

record 'f metrics =
  Datapoints :: "'f dataPoint list"
  Dimensions :: "(string, dimension) gomap"

text \<open>
  \<^verbatim>\<open>type point struct { tags, labels map[string]string; fields map[string]interface{} }\<close>.
  A field holds an \<^verbatim>\<open>int64\<close> or the \<^verbatim>\<open>float64\<close> of the datapoint.
\<close>

datatype 'f field_value = Int64 "64 word" | Float64 'f

record 'f point =
  p_tags :: "(string, string) gomap"
  p_labels :: "(string, string) gomap"
  p_fields :: "(string, 'f field_value) gomap"

text \<open>
  The field key of a datapoint, in the three assignments of the source:
  \<^verbatim>\<open>
  fieldKey := strings.ReplaceAll(dp.Name, ".", "_")
  if dp.Unit == "bytes" && !strings.HasSuffix(fieldKey, "_bytes") {
      fieldKey = fieldKey + "_bytes"
  }
  fieldKey = strings.TrimPrefix(fieldKey, "dcos_metrics_module_")
  \<close>
  \<open>suffixedKey\<close> is the key after the second assignment.
\<close>

definition suffixedKey :: "'f dataPoint \<Rightarrow> string" where
  "suffixedKey dp =
     (let fieldKey = ReplaceAll_byte (dp_Name dp) CHR ''.'' CHR ''_''
      in if dp_Unit dp = ''bytes'' \<and> \<not> HasSuffix fieldKey ''_bytes''
         then fieldKey @ ''_bytes'' else fieldKey)"

definition fieldKey :: "'f dataPoint \<Rightarrow> string" where
  "fieldKey dp = TrimPrefix (suffixedKey dp) ''dcos_metrics_module_''"

text \<open>\<^verbatim>\<open>tags := dp.Tags; if tags == nil { tags = make(map[string]string) }\<close>\<close>

definition tagsOf :: "'f dataPoint \<Rightarrow> (string, string) gomap" where
  "tagsOf dp = (case dp_Tags dp of None \<Rightarrow> [] | Some t \<Rightarrow> t)"

text \<open>
  \<^verbatim>\<open>
  tagset := make([]string, 0, len(tags))
  for k, v := range tags { tagset = append(tagset, k+"="+v) }
  sort.Strings(tagset)
  seriesKey := strings.Join(seriesParts, ",")
  \<close>
\<close>

definition seriesKey :: "(string, string) gomap \<Rightarrow> string" where
  "seriesKey t = Join (sort (map (\<lambda>(k, v). k @ ''='' @ v) t)) '',''"

text \<open>
  \<^verbatim>\<open>if dp.Unit == "bytes" { p.fields[fieldKey] = int64(dp.Value) }
  else { p.fields[fieldKey] = dp.Value }\<close>
\<close>

definition fieldValue :: "('f \<Rightarrow> 64 word) \<Rightarrow> 'f dataPoint \<Rightarrow> 'f field_value" where
  "fieldValue toInt64 dp =
     (if dp_Unit dp = ''bytes'' then Int64 (toInt64 (dp_Value dp)) else Float64 (dp_Value dp))"

text \<open>
  One round of the first loop: find the point of the series or make it, then store the
  field. \<open>collectPoints\<close> is the loop, from the empty map \<^verbatim>\<open>points\<close>.
\<close>

definition addDatapoint ::
  "('f \<Rightarrow> 64 word) \<Rightarrow> (string, 'f point) gomap \<Rightarrow> 'f dataPoint \<Rightarrow> (string, 'f point) gomap" where
  "addDatapoint toInt64 points dp =
     (let p = (case map_of points (seriesKey (tagsOf dp)) of
                 Some p \<Rightarrow> p
               | None \<Rightarrow> \<lparr>p_tags = tagsOf dp, p_labels = [], p_fields = []\<rparr>)
      in assign (seriesKey (tagsOf dp))
           (p\<lparr>p_fields := assign (fieldKey dp) (fieldValue toInt64 dp) (p_fields p)\<rparr>) points)"

definition collectPoints ::
  "('f \<Rightarrow> 64 word) \<Rightarrow> 'f dataPoint list \<Rightarrow> (string, 'f point) gomap" where
  "collectPoints toInt64 dps = foldl (addDatapoint toInt64) [] dps"

text \<open>
  The second loop copies the dimensions into every point: a string becomes a tag, the
  entries of a \<^verbatim>\<open>map[string]string\<close> under the key \<^verbatim>\<open>labels\<close> become labels.
  The points are returned in the order of the association list (Go leaves the order
  open).
\<close>

definition applyDimension :: "'f point \<Rightarrow> string \<times> dimension \<Rightarrow> 'f point" where
  "applyDimension p kv =
     (case snd kv of
        DimString v \<Rightarrow> p\<lparr>p_tags := assign (fst kv) v (p_tags p)\<rparr>
      | DimMap ls \<Rightarrow>
          (if fst kv = ''labels''
           then p\<lparr>p_labels := foldl (\<lambda>l (k, v). assign k v l) (p_labels p) ls\<rparr> else p)
      | DimOther \<Rightarrow> p)"

definition applyDimensions :: "(string, dimension) gomap \<Rightarrow> 'f point \<Rightarrow> 'f point" where
  "applyDimensions dims p = foldl applyDimension p dims"

definition createPoints :: "('f \<Rightarrow> 64 word) \<Rightarrow> 'f metrics \<Rightarrow> 'f point list" where
  "createPoints toInt64 m =
     map (\<lambda>(key, p). applyDimensions (Dimensions m) p)
         (collectPoints toInt64 (Datapoints m))"

text \<open>
  Two notions for stating what the first loop leaves: the last datapoint of a list that
  wrote a given field of a given series, and the field stored for a series and key.
\<close>

definition lastWriter :: "'f dataPoint list \<Rightarrow> string \<Rightarrow> string \<Rightarrow> 'f dataPoint option" where
  "lastWriter dps series key =
     find (\<lambda>d. seriesKey (tagsOf d) = series \<and> fieldKey d = key) (rev dps)"

definition fieldAt :: "(string, 'f point) gomap \<Rightarrow> string \<Rightarrow> string \<Rightarrow> 'f field_value option" where
  "fieldAt points series key =
     (case map_of points series of None \<Rightarrow> None | Some p \<Rightarrow> map_of (p_fields p) key)"



text \<open>The string \<^verbatim>\<open>k+"="+v\<close> of one tag.\<close>

definition pair :: "string \<times> string \<Rightarrow> string" where
  "pair kv = fst kv @ ''='' @ snd kv"

text \<open>
  Modelled from the spec: \<^verbatim>\<open>telegraf.Accumulator\<close> is an interface whose implementation
  is not among the sources at hand. Following the specification, an accumulator lives
  for one collector run and collects the forwarded metrics and, separately, the
  non-fatal errors; \<open>AddError\<close> records an error; \<open>AddFields\<close> builds a metric and
  forwards it, and a metric that cannot be built is reported through \<open>AddError\<close>
  while collection continues. How a metric is built is the parameter \<open>build\<close>. The
  arguments of \<open>AddFields\<close> are in the order of the call in \<^verbatim>\<open>addMetrics\<close>.
\<close>

record ('m, 'e) accumulator =
  acc_metrics :: "'m list"
  acc_errors :: "'e list"

definition AddError :: "'e \<Rightarrow> ('m, 'e) accumulator \<Rightarrow> ('m, 'e) accumulator" where
  "AddError err acc = acc\<lparr>acc_errors := acc_errors acc @ [err]\<rparr>"

definition AddFields ::
  "(string \<Rightarrow> 'fs \<Rightarrow> 'ts \<Rightarrow> 't \<Rightarrow> 'e + 'm) \<Rightarrow> string \<Rightarrow> 'fs \<Rightarrow> 'ts \<Rightarrow> 't
     \<Rightarrow> ('m, 'e) accumulator \<Rightarrow> ('m, 'e) accumulator" where
  "AddFields build measurement flds tgs tm acc =
     (case build measurement flds tgs tm of
        Inl err \<Rightarrow> AddError err acc
      | Inr metric \<Rightarrow> acc\<lparr>acc_metrics := acc_metrics acc @ [metric]\<rparr>)"

text \<open>
  \<^verbatim>\<open>
  func addMetrics(acc telegraf.Accumulator, cluster, mname string, m *metrics, tagDimensions []string) {
      tm := time.Now()
      points := createPoints(m)
      for _, p := range points {
          tags := make(map[string]string)
          tags["cluster"] = cluster
          for _, tagkey := range tagDimensions {
              v, ok := p.tags[tagkey]
              if ok { tags[tagkey] = v }
          }
          for k, v := range p.labels { tags[k] = v }
          acc.AddFields(mname, p.fields, tags, tm)
      }
  }
  \<close>
  \<open>pointTags\<close> is the tag map built for one point; the time is the parameter \<open>tm\<close>.
\<close>

definition pointTags :: "string \<Rightarrow> string list \<Rightarrow> 'f point \<Rightarrow> (string, string) gomap" where
  "pointTags cluster tagDimensions p =
     (let tags0 = assign ''cluster'' cluster [];
          tags1 = foldl (\<lambda>tags tagkey.
                    case map_of (p_tags p) tagkey of
                      Some v \<Rightarrow> assign tagkey v tags
                    | None \<Rightarrow> tags) tags0 tagDimensions
      in foldl (\<lambda>tags (k, v). assign k v tags) tags1 (p_labels p))"

definition addMetrics ::
  "(string \<Rightarrow> (string, 'f field_value) gomap \<Rightarrow> (string, string) gomap \<Rightarrow> 't \<Rightarrow> 'e + 'm)
     \<Rightarrow> 't \<Rightarrow> ('f \<Rightarrow> 64 word) \<Rightarrow> string \<Rightarrow> string \<Rightarrow> 'f metrics \<Rightarrow> string list
     \<Rightarrow> ('m, 'e) accumulator \<Rightarrow> ('m, 'e) accumulator" where
  "addMetrics build tm toInt64 cluster mname m tagDimensions acc =
     foldl (\<lambda>acc p. AddFields build mname (p_fields p) (pointTags cluster tagDimensions p) tm acc)
       acc (createPoints toInt64 m)"

text \<open>
  The DC/OS client is an interface. Its errors are either an \<^verbatim>\<open>apiError\<close> with a
  status code, which \<^verbatim>\<open>errors.As\<close> recognises, or any other error.
\<close>

datatype error = ApiError nat string | ErrorString string

record 'f client =
  getContainers :: "string \<Rightarrow> error + string list"
  getContainerMetrics :: "string \<Rightarrow> string \<Rightarrow> error + 'f metrics"
  getAppMetrics :: "string \<Rightarrow> string \<Rightarrow> error + 'f metrics"

record 'f DCOS =
  dcos_client :: "'f client"
  containerFilter :: "string \<Rightarrow> bool"
  appFilter :: "string \<Rightarrow> bool"

text \<open>The tag dimensions of container and application metrics, as declared in the source.\<close>

definition containerDimensions :: "string list" where
  "containerDimensions = [''hostname'', ''container_id'', ''task_name'']"

definition appDimensions :: "string list" where
  "appDimensions = [''hostname'', ''container_id'', ''task_name'']"

text \<open>\<^verbatim>\<open>errors.As(err, &apiErr) && apiErr.statusCode == 404\<close>\<close>

definition isNotFound :: "error \<Rightarrow> bool" where
  "isNotFound err = (case err of ApiError statusCode _ \<Rightarrow> statusCode = 404 | ErrorString _ \<Rightarrow> False)"

type_synonym ('f, 't, 'm) builder =
  "string \<Rightarrow> (string, 'f field_value) gomap \<Rightarrow> (string, string) gomap \<Rightarrow> 't \<Rightarrow> error + 'm"

text \<open>
  \<^verbatim>\<open>addContainerMetrics\<close> and \<^verbatim>\<open>addAppMetrics\<close> call \<^verbatim>\<open>addMetrics\<close> with
  their measurement name and dimensions.
\<close>

definition addContainerMetrics ::
  "('f, 't, 'm) builder \<Rightarrow> 't \<Rightarrow> ('f \<Rightarrow> 64 word) \<Rightarrow> string \<Rightarrow> 'f metrics
     \<Rightarrow> ('m, error) accumulator \<Rightarrow> ('m, error) accumulator" where
  "addContainerMetrics build tm toInt64 cluster m acc =
     addMetrics build tm toInt64 cluster ''dcos_container'' m containerDimensions acc"

definition addAppMetrics ::
  "('f, 't, 'm) builder \<Rightarrow> 't \<Rightarrow> ('f \<Rightarrow> 64 word) \<Rightarrow> string \<Rightarrow> 'f metrics
     \<Rightarrow> ('m, error) accumulator \<Rightarrow> ('m, error) accumulator" where
  "addAppMetrics build tm toInt64 cluster m acc =
     addMetrics build tm toInt64 cluster ''dcos_app'' m appDimensions acc"

text \<open>
  \<^verbatim>\<open>gatherContainers\<close> fetches the containers of a node and starts, for every container
  that a filter matches, one goroutine for its container metrics and one for its
  application metrics. A fetch that fails with status 404 is skipped, any other failure
  is recorded with \<^verbatim>\<open>acc.AddError\<close>, and the goroutine ends; a successful fetch adds
  its metrics. The goroutines only meet in the accumulator, so the model runs them one
  after the other, container by container: the metrics and errors collected are those
  of every interleaving, in one of the possible orders.
\<close>

definition gatherContainer ::
  "('f, 't, 'm) builder \<Rightarrow> 't \<Rightarrow> ('f \<Rightarrow> 64 word) \<Rightarrow> 'f DCOS \<Rightarrow> string \<Rightarrow> string \<Rightarrow> string
     \<Rightarrow> ('m, error) accumulator \<Rightarrow> ('m, error) accumulator" where
  "gatherContainer build tm toInt64 d cluster node container acc =
     (let acc1 =
        (if containerFilter d container then
           (case getContainerMetrics (dcos_client d) node container of
              Inl err \<Rightarrow> if isNotFound err then acc else AddError err acc
            | Inr m \<Rightarrow> addContainerMetrics build tm toInt64 cluster m acc)
         else acc)
      in if appFilter d container then
           (case getAppMetrics (dcos_client d) node container of
              Inl err \<Rightarrow> if isNotFound err then acc1 else AddError err acc1
            | Inr m \<Rightarrow> addAppMetrics build tm toInt64 cluster m acc1)
         else acc1)"

definition gatherContainers ::
  "('f, 't, 'm) builder \<Rightarrow> 't \<Rightarrow> ('f \<Rightarrow> 64 word) \<Rightarrow> 'f DCOS \<Rightarrow> string \<Rightarrow> string
     \<Rightarrow> ('m, error) accumulator \<Rightarrow> ('m, error) accumulator" where
  "gatherContainers build tm toInt64 d cluster node acc =
     (case getContainers (dcos_client d) node of
        Inl err \<Rightarrow> AddError err acc
      | Inr containers \<Rightarrow>
          foldl (\<lambda>acc container. gatherContainer build tm toInt64 d cluster node container acc)
            acc containers)"

text \<open>
  A run appends to the accumulator when its effect is to add fixed lists of metrics and
  errors, whatever the accumulator held before.
\<close>

definition appends ::
  "(('m, 'e) accumulator \<Rightarrow> ('m, 'e) accumulator) \<Rightarrow> 'm list \<Rightarrow> 'e list \<Rightarrow> bool" where
  "appends run ms es =
     (\<forall>acc. run acc = \<lparr>acc_metrics = acc_metrics acc @ ms, acc_errors = acc_errors acc @ es\<rparr>)"





definition overwriteA :: "int dataPoint" where
  "overwriteA = \<lparr>dp_Name = ''mem.total'', dp_Tags = Some [(''host'', ''n1'')],
                  dp_Unit = ''bytes'', dp_Value = 4096\<rparr>"

definition overwriteB :: "int dataPoint" where
  "overwriteB = \<lparr>dp_Name = ''mem.total_bytes'', dp_Tags = Some [(''host'', ''n1'')],
                  dp_Unit = ''percent'', dp_Value = 50\<rparr>"

definition moduleBytes :: "int dataPoint" where
  "moduleBytes = \<lparr>dp_Name = ''dcos.metrics.module'', dp_Tags = None,
                   dp_Unit = ''bytes'', dp_Value = 7\<rparr>"

definition memTotal :: "int dataPoint" where
  "memTotal = \<lparr>dp_Name = ''dcos.metrics.module.mem.total'', dp_Tags = Some [(''path'', ''/'')],
                dp_Unit = ''bytes'', dp_Value = 4096\<rparr>"

definition load1 :: "int dataPoint" where
  "load1 = \<lparr>dp_Name = ''load.1min'', dp_Tags = None, dp_Unit = ''count'', dp_Value = 2\<rparr>"

definition fsFree :: "int dataPoint" where
  "fsFree = \<lparr>dp_Name = ''filesystem.capacity.free_bytes'', dp_Tags = Some [(''path'', ''/'')],
              dp_Unit = ''bytes'', dp_Value = 1024\<rparr>"

definition nodeMetrics :: "int metrics" where
  "nodeMetrics = \<lparr>Datapoints = [memTotal, load1, fsFree],
     Dimensions = [(''hostname'', DimString ''n1''), (''labels'', DimMap [(''env'', ''prod'')])]\<rparr>"

definition taskPoint :: "int point" where
  "taskPoint = \<lparr>p_tags = [(''hostname'', ''n1''), (''task_name'', ''web''), (''path'', ''/'')],
                 p_labels = [(''cluster'', ''blue''), (''hostname'', ''alias'')],
                 p_fields = [(''cpus_user'', Float64 2)]\<rparr>"

definition containerMetrics :: "int metrics" where
  "containerMetrics = \<lparr>Datapoints =
      [\<lparr>dp_Name = ''mem.total'', dp_Tags = None, dp_Unit = ''bytes'', dp_Value = 4096\<rparr>],
     Dimensions = [(''container_id'', DimString ''c2'')]\<rparr>"

definition flakyDCOS :: "int DCOS" where
  "flakyDCOS = \<lparr>dcos_client =
       \<lparr>getContainers = (\<lambda>node. Inr [''c1'', ''c2'']),
        getContainerMetrics = (\<lambda>node c. if c = ''c1'' then Inl (ApiError 500 ''internal'')
                                        else Inr containerMetrics),
        getAppMetrics = (\<lambda>node c. Inl (ApiError 404 ''not found''))\<rparr>,
     containerFilter = (\<lambda>c. True), appFilter = (\<lambda>c. True)\<rparr>"

definition tupleBuilder ::
  "string \<Rightarrow> (string, int field_value) gomap \<Rightarrow> (string, string) gomap \<Rightarrow> nat
     \<Rightarrow> error + (string \<times> (string, int field_value) gomap \<times> (string, string) gomap \<times> nat)" where
  "tupleBuilder measurement flds tgs tm = Inr (measurement, flds, tgs, tm)"

section \<open>Metrics and the write contract: \<^verbatim>\<open>metric.New\<close> and \<^verbatim>\<open>Write\<close>\<close>

subsection \<open>The constructor \<^verbatim>\<open>metric.New\<close>\<close>

text \<open>
  Modelled from the spec: package \<^verbatim>\<open>metric\<close> with \<^verbatim>\<open>metric.New\<close> is not among the
  sources at hand; its callers are. The data model is the specification's: a name, tags
  with unique keys and sorted by key, fields, a timestamp (nanoseconds). The result type
  is the one of the call sites, \<^verbatim>\<open>m := metric.New(name, tags, fields, tm)\<close>: a metric and
  no error. The tests under \<^verbatim>\<open>src\<close> are the authority where the specification's
  construction contract says otherwise: they build metrics from an empty field map and go
  on to use them (\<^verbatim>\<open>TestUDP_ErrorLogging\<close>, \<^verbatim>\<open>MustMetric\<close> in the tests of
  \<^verbatim>\<open>testutil\<close>), and they require the metric built from the \<^verbatim>\<open>int\<close> \<open>1\<close> to equal the one
  built from \<^verbatim>\<open>int64(1)\<close> (\<^verbatim>\<open>TestRequireMetricEqual\<close>).

  The field map of a call is a \<^verbatim>\<open>map[string]interface{}\<close>: a value of any Go type. The
  types the constructor tells apart are listed; \<open>V_other\<close> stands for a value of any
  further type, given by the name of the type, and \<open>V_pointer\<close> for a pointer, \<open>None\<close> when
  it is nil. A \<^verbatim>\<open>float64\<close> is a value of a type \<open>'f\<close> left open; a \<^verbatim>\<open>float32\<close> is taken
  as already widened to it.
\<close>

datatype 'f go_value =
    V_int int | V_int8 int | V_int16 int | V_int32 int | V_int64 int
  | V_uint nat | V_uint8 nat | V_uint16 nat | V_uint32 nat | V_uint64 nat
  | V_float32 'f | V_float64 'f
  | V_string string | V_bytes string | V_bool bool
  | V_nil
  | V_pointer "'f go_value option"
  | V_other string

text \<open>What a metric stores for a field: one of five types.\<close>

datatype 'f field = F_int64 int | F_uint64 nat | F_float64 'f | F_string string | F_bool bool

text \<open>
  The conversion of a field value on its way into a metric: the signed integers become
  \<^verbatim>\<open>int64\<close>, the unsigned ones \<^verbatim>\<open>uint64\<close>, \<^verbatim>\<open>float32\<close> becomes \<^verbatim>\<open>float64\<close>, a byte slice
  becomes a string, a non-nil pointer to one of these types is followed, and there is no
  stored value (\<open>None\<close>) for anything else.
\<close>

fun convertField :: "'f go_value \<Rightarrow> 'f field option" where
  "convertField (V_float64 v) = Some (F_float64 v)"
| "convertField (V_int64 v) = Some (F_int64 v)"
| "convertField (V_string v) = Some (F_string v)"
| "convertField (V_bool v) = Some (F_bool v)"
| "convertField (V_int v) = Some (F_int64 v)"
| "convertField (V_uint v) = Some (F_uint64 v)"
| "convertField (V_uint64 v) = Some (F_uint64 v)"
| "convertField (V_bytes v) = Some (F_string v)"
| "convertField (V_int32 v) = Some (F_int64 v)"
| "convertField (V_int16 v) = Some (F_int64 v)"
| "convertField (V_int8 v) = Some (F_int64 v)"
| "convertField (V_uint32 v) = Some (F_uint64 v)"
| "convertField (V_uint16 v) = Some (F_uint64 v)"
| "convertField (V_uint8 v) = Some (F_uint64 v)"
| "convertField (V_float32 v) = Some (F_float64 v)"
| "convertField (V_pointer None) = None"
| "convertField (V_pointer (Some (V_pointer p))) = None"
| "convertField (V_pointer (Some V_nil)) = None"
| "convertField (V_pointer (Some (V_other t))) = None"
| "convertField (V_pointer (Some v)) = convertField v"
| "convertField V_nil = None"
| "convertField (V_other t) = None"

record 'f Metric =
  m_name :: string
  m_tags :: "(string, string) gomap"
  m_fields :: "(string, 'f field) gomap"
  m_time :: int

text \<open>
  The fields of the call in the order the map yields them: a field is stored under its
  key with the converted value, and left out when there is none.
\<close>

definition storeFields :: "(string, 'f go_value) gomap \<Rightarrow> (string, 'f field) gomap" where
  "storeFields flds =
     List.map_filter (\<lambda>(k, v). case convertField v of None \<Rightarrow> None | Some s \<Rightarrow> Some (k, s)) flds"

definition New ::
  "string \<Rightarrow> (string, string) gomap \<Rightarrow> (string, 'f go_value) gomap \<Rightarrow> int \<Rightarrow> 'f Metric" where
  "New name tgs flds tm =
     \<lparr>m_name = name, m_tags = sort_key fst tgs, m_fields = storeFields flds, m_time = tm\<rparr>"

text \<open>
  The constructor in the words of the specification's contract, for comparison:
  construction fails with \<open>InvalidMetric\<close> when no fields are supplied or when the name is
  empty.
\<close>

datatype metric_error = InvalidMetric | UnsupportedFieldType


subsection \<open>\<^verbatim>\<open>PrometheusClient.Write\<close>\<close>


subsection \<open>The UDP client of the InfluxDB output\<close>

text \<open>
  Modelled from the spec: the client (\<^verbatim>\<open>NewUDPClient\<close> and the method \<^verbatim>\<open>Write\<close> of the
  client it returns, package \<^verbatim>\<open>influxdb\<close>) is not among the sources at hand; its tests
  are (\<^verbatim>\<open>TestUDP_NewUDPClientNoURL\<close>, \<^verbatim>\<open>TestUDP_Simple\<close>, \<^verbatim>\<open>TestUDP_DialError\<close>,
  \<^verbatim>\<open>TestUDP_WriteError\<close>, \<^verbatim>\<open>TestUDP_ErrorLogging\<close>). The specification gives the
  contract \<^verbatim>\<open>Write(batch of Metric) -> error\<close>; the steps of the client are modelled as
  the client takes them, and the tests are the authority where the contract says
  otherwise.

  A connection answers each write with nil or an error; what it answers may depend on
  the payloads written to it before, so a connection is a function of that history and
  of the payload. The configuration holds the URL (as text, \<open>None\<close> when missing), the
  largest payload, the serializer (a function of the largest line it may produce) and
  what the dialer answers: a connection or an error.
\<close>

type_synonym Conn = "string list \<Rightarrow> string \<Rightarrow> go_error option"

record 'm UDPConfig =
  MaxPayloadSize :: nat
  URL :: "string option"
  Serializer :: "nat \<Rightarrow> 'm \<Rightarrow> go_error + string"
  Dialer :: "go_error + Conn"

text \<open>
  The client: its connection is \<open>None\<close> until the first \<^verbatim>\<open>Write\<close> has dialed, and
  otherwise kept together with what was written to it.
\<close>

record 'm udpClient =
  c_url :: string
  c_serializer :: "'m \<Rightarrow> go_error + string"
  c_dialer :: "go_error + Conn"
  c_conn :: "(Conn \<times> string list) option"

definition ErrMissingURL :: go_error where
  "ErrMissingURL = ''missing URL''"

definition DefaultMaxPayloadSize :: nat where
  "DefaultMaxPayloadSize = 512"

text \<open>
  \<^verbatim>\<open>NewUDPClient\<close> refuses a configuration without URL, and hands the serializer the
  largest payload as the largest line, 512 bytes when the configuration has 0.
\<close>

definition NewUDPClient :: "'m UDPConfig \<Rightarrow> go_error + 'm udpClient" where
  "NewUDPClient config =
     (case URL config of
        None \<Rightarrow> Inl ErrMissingURL
      | Some u \<Rightarrow>
          Inr \<lparr>c_url = u,
               c_serializer = Serializer config
                 (if MaxPayloadSize config = 0 then DefaultMaxPayloadSize
                  else MaxPayloadSize config),
               c_dialer = Dialer config,
               c_conn = None\<rparr>)"

text \<open>
  The payload of one metric is written line by line: the lines are the
  newline-terminated pieces of the payload, each with its newline; what follows the last
  newline is not written. The scanner that cuts the lines gives up at a line longer than
  its buffer of 64 KiB.
\<close>

fun splitLines :: "string \<Rightarrow> string \<Rightarrow> string list" where
  "splitLines cur [] = []"
| "splitLines cur (c # cs) =
     (if c = CHR 0x0A then (cur @ [c]) # splitLines [] cs else splitLines (cur @ [c]) cs)"

definition MaxScanTokenSize :: nat where
  "MaxScanTokenSize = 64 * 1024"

definition scanLines :: "string \<Rightarrow> string list" where
  "scanLines octets = takeWhile (\<lambda>l. length l \<le> MaxScanTokenSize) (splitLines [] octets)"

text \<open>
  Every line is written, and each write overwrites the error of the one before: the
  error in hand after the loop is that of the last line (nil for a payload without
  lines).
\<close>

fun writeLines :: "Conn \<Rightarrow> string list \<Rightarrow> string list \<Rightarrow> go_error option
                     \<Rightarrow> go_error option \<times> string list" where
  "writeLines w hist [] err = (err, hist)"
| "writeLines w hist (l # ls) err = writeLines w (hist @ [l]) ls (w hist l)"

text \<open>
  What a call of \<^verbatim>\<open>Write\<close> returns and does: the error returned, the payloads passed to
  the connection during the call, the lines logged, whether the connection was closed,
  and the client as the call leaves it.
\<close>

record 'm write_result =
  w_err :: "go_error option"
  w_attempted :: "string list"
  w_logged :: "string list"
  w_closed :: bool
  w_client :: "'m udpClient"

definition logLine :: "string \<Rightarrow> go_error \<Rightarrow> string" where
  "logLine url e = ''when writing to ['' @ url @ ''] could not serialize metric: '' @ e"

text \<open>
  The loop over the batch. A metric that does not serialize is logged and the loop
  continues with the next one. A serialized metric is written line by line; when the
  error in hand after its lines is not nil, the connection is closed and forgotten and
  the error returned, the rest of the batch untouched. After the last metric the result
  is nil.
\<close>

fun writeMetrics :: "'m udpClient \<Rightarrow> Conn \<Rightarrow> string list \<Rightarrow> string list \<Rightarrow> string list
                       \<Rightarrow> 'm list \<Rightarrow> 'm write_result" where
  "writeMetrics c w hist att logged [] =
     \<lparr>w_err = None, w_attempted = att, w_logged = logged, w_closed = False,
      w_client = c\<lparr>c_conn := Some (w, hist)\<rparr>\<rparr>"
| "writeMetrics c w hist att logged (m # ms) =
     (case c_serializer c m of
        Inl e \<Rightarrow> writeMetrics c w hist att (logged @ [logLine (c_url c) e]) ms
      | Inr octets \<Rightarrow>
          (case writeLines w hist (scanLines octets) None of
             (Some e, hist') \<Rightarrow>
               \<lparr>w_err = Some e, w_attempted = att @ scanLines octets, w_logged = logged,
                w_closed = True, w_client = c\<lparr>c_conn := None\<rparr>\<rparr>
           | (None, hist') \<Rightarrow> writeMetrics c w hist' (att @ scanLines octets) logged ms))"

definition dialError :: "string \<Rightarrow> go_error \<Rightarrow> go_error" where
  "dialError url e = ''error dialing address ['' @ url @ '']: '' @ e"

text \<open>
  \<^verbatim>\<open>Write\<close> of the UDP client: a client without connection dials first, and returns the
  dialer's error, wrapped, when there is one.
\<close>

definition udp_Write :: "'m udpClient \<Rightarrow> 'm list \<Rightarrow> 'm write_result" where
  "udp_Write c metrics =
     (case c_conn c of
        Some (w, hist) \<Rightarrow> writeMetrics c w hist [] [] metrics
      | None \<Rightarrow>
          (case c_dialer c of
             Inl e \<Rightarrow> \<lparr>w_err = Some (dialError (c_url c) e), w_attempted = [], w_logged = [],
                       w_closed = False, w_client = c\<rparr>
           | Inr w \<Rightarrow> writeMetrics c w [] [] [] metrics))"



definition connection :: "'m udpClient \<Rightarrow> (Conn \<times> string list) option" where
  "connection c =
     (case c_conn c of
        Some wh \<Rightarrow> Some wh
      | None \<Rightarrow> (case c_dialer c of Inl e \<Rightarrow> None | Inr w \<Rightarrow> Some (w, [])))"


subsection \<open>The setting of the UDP tests\<close>

text \<open>
  A stand-in for the line-protocol serializer of package \<^verbatim>\<open>influx\<close> (not among the
  sources at hand), without escaping: the series (name and tags), the fields joined by
  commas, the time in decimal, a newline. A field that would take the line beyond the
  largest line starts a new line; a field that does not fit a line of its own, or a
  metric without fields, is an error. A \<^verbatim>\<open>float64\<close> is given by its decimal text.
\<close>

fun showNat :: "nat \<Rightarrow> string" where
  "showNat n =
     (if n < 10 then [''0123456789'' ! n]
      else showNat (n div 10) @ [''0123456789'' ! (n mod 10)])"

declare showNat.simps [simp del]

definition showInt :: "int \<Rightarrow> string" where
  "showInt i = (if i < 0 then ''-'' @ showNat (nat (- i)) else showNat (nat i))"

definition quoted :: "string \<Rightarrow> string" where
  "quoted s = [CHR 0x22] @ s @ [CHR 0x22]"

fun fieldText :: "string field \<Rightarrow> string" where
  "fieldText (F_float64 t) = t"
| "fieldText (F_int64 i) = showInt i @ ''i''"
| "fieldText (F_uint64 n) = showNat n @ ''u''"
| "fieldText (F_string s) = quoted s"
| "fieldText (F_bool b) = (if b then ''true'' else ''false'')"

definition seriesName :: "string Metric \<Rightarrow> string" where
  "seriesName m = m_name m @ concat (map (\<lambda>(k, v). '','' @ k @ ''='' @ v) (m_tags m))"

fun writeFields :: "nat \<Rightarrow> string \<Rightarrow> string \<Rightarrow> string list \<Rightarrow> nat \<Rightarrow> bool \<Rightarrow> string
                      \<Rightarrow> string + string" where
  "writeFields mx header footer [] pairsLen firstField out =
     (if firstField then Inl ''no serializable fields'' else Inr (out @ footer))"
| "writeFields mx header footer (kv # kvs) pairsLen firstField out =
     (let bytesNeeded = length header + pairsLen + length kv + length footer
                          + (if firstField then 0 else 1)
      in if 0 < mx \<and> mx < bytesNeeded then
           (if firstField then Inl ''need more space''
            else if mx < length header + length kv + length footer then Inl ''need more space''
            else writeFields mx header footer kvs (length kv) False
                   (out @ footer @ header @ kv))
         else writeFields mx header footer kvs (pairsLen + length kv) False
                (out @ (if firstField then header else '','') @ kv))"

definition lineSerializer :: "nat \<Rightarrow> string Metric \<Rightarrow> go_error + string" where
  "lineSerializer maxLineBytes m =
     (case writeFields maxLineBytes (seriesName m @ '' '') ('' '' @ showInt (m_time m) @ [CHR 0x0A])
             (map (\<lambda>(k, v). k @ ''='' @ fieldText v) (m_fields m)) 0 True [] of
        Inl reason \<Rightarrow> Inl (quoted (seriesName m) @ '': '' @ reason)
      | Inr octets \<Rightarrow> Inr octets)"

text \<open>
  The metrics of the tests: \<^verbatim>\<open>getMetric()\<close>, the metric without fields of
  \<^verbatim>\<open>TestUDP_ErrorLogging\<close>, and one with two fields.
\<close>

definition getMetric :: "string Metric" where
  "getMetric = New ''cpu'' [] [(''value'', V_float64 ''42'')] 0"

definition noFields :: "string Metric" where
  "noFields = New ''cpu'' [(''host'', ''example.org'')] [] 0"


definition getURL :: string where
  "getURL = ''udp://localhost:0''"

text \<open>
  Connections: one that accepts every write (as the one of \<^verbatim>\<open>TestUDP_Simple\<close>), one
  that refuses every write (as the one of \<^verbatim>\<open>TestUDP_WriteError\<close>), and one that refuses
  the first write only.
\<close>

definition bufferConn :: Conn where
  "bufferConn = (\<lambda>hist b. None)"

definition refusingConn :: Conn where
  "refusingConn = (\<lambda>hist b. Some ''connection refused'')"


definition mockConfig :: "nat \<Rightarrow> go_error + Conn \<Rightarrow> string Metric UDPConfig" where
  "mockConfig sz dial =
     \<lparr>MaxPayloadSize = sz, URL = Some getURL, Serializer = lineSerializer, Dialer = dial\<rparr>"

definition mockClient :: "nat \<Rightarrow> go_error + Conn \<Rightarrow> string Metric udpClient" where
  "mockClient sz dial =
     \<lparr>c_url = getURL, c_serializer = lineSerializer sz, c_dialer = dial, c_conn = None\<rparr>"

section \<open>MQTT output, Homie datatypes: \<^verbatim>\<open>convertType\<close>\<close>

text \<open>
  The dynamic type of an \<^verbatim>\<open>interface{}\<close> value, as far as the type switch of
  \<^verbatim>\<open>convertType\<close> tells types apart: the built-in numeric types, \<^verbatim>\<open>[]byte\<close>,
  \<^verbatim>\<open>string\<close>, \<^verbatim>\<open>bool\<close>, nil, a named type that implements \<^verbatim>\<open>fmt.Stringer\<close>
  (such as \<^verbatim>\<open>time.Time\<close>) and any other named type. A value is its type with a payload.
\<close>

datatype go_type =
    T_int | T_int8 | T_int16 | T_int32 | T_int64
  | T_uint | T_uint8 | T_uint16 | T_uint32 | T_uint64
  | T_float32 | T_float64
  | T_bytes | T_string | T_bool | T_nil
  | T_Stringer string
  | T_other string

datatype homie_error = ToStringFailed string | UnknownType go_type

text \<open>
  \<^verbatim>\<open>
  switch value.(type) {
  case int8, int16, int32, int64, uint8, uint16, uint32, uint64: return v, "integer", nil
  case float32, float64:                                         return v, "float", nil
  case []byte, string, fmt.Stringer:                             return v, "string", nil
  case bool:                                                     return v, "boolean", nil
  }
  return "", "", fmt.Errorf("unknown type %T", value)
  \<close>
\<close>

fun typeSwitch :: "go_type \<Rightarrow> string option" where
  "typeSwitch T_int8 = Some ''integer''"
| "typeSwitch T_int16 = Some ''integer''"
| "typeSwitch T_int32 = Some ''integer''"
| "typeSwitch T_int64 = Some ''integer''"
| "typeSwitch T_uint8 = Some ''integer''"
| "typeSwitch T_uint16 = Some ''integer''"
| "typeSwitch T_uint32 = Some ''integer''"
| "typeSwitch T_uint64 = Some ''integer''"
| "typeSwitch T_float32 = Some ''float''"
| "typeSwitch T_float64 = Some ''float''"
| "typeSwitch T_bytes = Some ''string''"
| "typeSwitch T_string = Some ''string''"
| "typeSwitch (T_Stringer n) = Some ''string''"
| "typeSwitch T_bool = Some ''boolean''"
| "typeSwitch T_int = None"
| "typeSwitch T_uint = None"
| "typeSwitch T_nil = None"
| "typeSwitch (T_other n) = None"

text \<open>
  \<^verbatim>\<open>v, err := internal.ToString(value); if err != nil { return "", "", err }\<close>, then the
  type switch. \<^verbatim>\<open>internal.ToString\<close> is not among the sources: it is the parameter
  \<open>ToString\<close>.
\<close>

definition convertType ::
  "(go_type \<times> 'a \<Rightarrow> string + string) \<Rightarrow> go_type \<times> 'a \<Rightarrow> homie_error + string \<times> string" where
  "convertType ToString value =
     (case ToString value of
        Inl err \<Rightarrow> Inl (ToStringFailed err)
      | Inr v \<Rightarrow>
          (case typeSwitch (fst value) of
             Some dtype \<Rightarrow> Inr (v, dtype)
           | None \<Rightarrow> Inl (UnknownType (fst value))))"

text \<open>
  The six kinds named by the claim, for comparison: signed integer, unsigned integer,
  float64, boolean, string and timestamp.
\<close>

fun supportedKind :: "go_type \<Rightarrow> bool" where
  "supportedKind T_int = True"
| "supportedKind T_int8 = True"
| "supportedKind T_int16 = True"
| "supportedKind T_int32 = True"
| "supportedKind T_int64 = True"
| "supportedKind T_uint = True"
| "supportedKind T_uint8 = True"
| "supportedKind T_uint16 = True"
| "supportedKind T_uint32 = True"
| "supportedKind T_uint64 = True"
| "supportedKind T_float64 = True"
| "supportedKind T_bool = True"
| "supportedKind T_string = True"
| "supportedKind (T_Stringer n) = (n = ''time.Time'')"
| "supportedKind T_float32 = False"
| "supportedKind T_bytes = False"
| "supportedKind T_nil = False"
| "supportedKind (T_other n) = False"

text \<open>A stand-in for \<^verbatim>\<open>internal.ToString\<close> in the examples: the payload is the text.\<close>

definition render :: "go_type \<times> string \<Rightarrow> string + string" where
  "render value = (case fst value of T_other n \<Rightarrow> Inl (''type unsupported'') | _ \<Rightarrow> Inr (snd value))"

section \<open>The per-destination buffer\<close>

text \<open>
  Modelled from the spec: the Buffer of the delivery pipeline has no source among the
  files at hand. Following the specification, a Buffer is a bounded ordered sequence of
  metrics, oldest first, with a maximum capacity; a zero capacity is rejected at
  construction; \<open>Push\<close> under the default drop-oldest policy evicts the oldest metric
  when the buffer is at capacity, then inserts, and returns whether it evicted.
\<close>

record 'a Buffer =
  capacity :: nat
  items :: "'a list"

definition NewBuffer :: "nat \<Rightarrow> 'a Buffer option" where
  "NewBuffer n = (if n = 0 then None else Some \<lparr>capacity = n, items = []\<rparr>)"

definition Push :: "'a \<Rightarrow> 'a Buffer \<Rightarrow> 'a Buffer \<times> bool" where
  "Push metric b =
     (if capacity b \<le> length (items b)
      then (b\<lparr>items := tl (items b) @ [metric]\<rparr>, True)
      else (b\<lparr>items := items b @ [metric]\<rparr>, False))"

text \<open>\<^verbatim>\<open>Len()\<close>, a sequence of pushes, and the invariant of the specification.\<close>

definition Len :: "'a Buffer \<Rightarrow> nat" where
  "Len b = length (items b)"

fun pushAll :: "'a Buffer \<Rightarrow> 'a list \<Rightarrow> 'a Buffer" where
  "pushAll b [] = b"
| "pushAll b (metric # metrics) = pushAll (fst (Push metric b)) metrics"

definition bounded :: "'a Buffer \<Rightarrow> bool" where
  "bounded b = (0 < capacity b \<and> Len b \<le> capacity b)"

chapter \<open>Properties\<close>

section \<open>MQTT output, Homie identifiers: \<^verbatim>\<open>normalizeID\<close>\<close>

lemma homieID_Cons: "homieID (c # cs) = ((isLowerOrDigit c \<or> c = hyphen) \<and> (c = hyphen \<longrightarrow> cs = [] \<or> hd cs \<noteq> hyphen) \<and> homieID cs)"
  by (cases cs) auto

lemma hyphen_not_alnum: "\<not> isLowerOrDigit hyphen"
  by (simp add: isLowerOrDigit_def hyphen_def)

lemma hd_replace: "idRe_ReplaceAllString cs \<noteq> [] \<Longrightarrow> hd (idRe_ReplaceAllString cs) = hyphen \<Longrightarrow> cs \<noteq> [] \<and> \<not> isLowerOrDigit (hd cs)"
  by (cases cs) (auto simp: hyphen_not_alnum split: if_splits)

lemma homieID_replace: "homieID (idRe_ReplaceAllString s)"
proof (induction s rule: idRe_ReplaceAllString.induct)
  case 1
  then show ?case by simp
next
  case (2 c cs)
  show ?case
  proof (cases "isLowerOrDigit c")
    case True
    with 2 show ?thesis by (simp add: homieID_Cons hyphen_not_alnum) (metis hyphen_not_alnum)
  next
    case False
    let ?r = "dropWhile (\<lambda>d. \<not> isLowerOrDigit d) cs"
    have "idRe_ReplaceAllString ?r = [] \<or> hd (idRe_ReplaceAllString ?r) \<noteq> hyphen"
      using hd_replace[of ?r] hd_dropWhile[of "\<lambda>d. \<not> isLowerOrDigit d" cs] by blast
    with False 2 show ?thesis by (simp add: homieID_Cons)
  qed
qed

lemma homieID_set: "homieID s \<Longrightarrow> c \<in> set s \<Longrightarrow> isLowerOrDigit c \<or> c = hyphen"
  by (induction s rule: homieID.induct) auto

lemma homieID_dropWhile: "homieID s \<Longrightarrow> homieID (dropWhile P s)"
  by (induction s rule: homieID.induct) auto

lemma homieID_append:
  "homieID (xs @ ys) =
     (homieID xs \<and> homieID ys \<and> (xs \<noteq> [] \<and> ys \<noteq> [] \<longrightarrow> \<not> (last xs = hyphen \<and> hd ys = hyphen)))"
proof (induction xs)
  case Nil
  then show ?case by simp
next
  case (Cons x xs)
  show ?case
  proof (cases xs)
    case Nil
    then show ?thesis by (cases ys) (auto simp: homieID_Cons)
  next
    case (Cons z zs)
    with Cons.IH show ?thesis by (auto simp: homieID_Cons)
  qed
qed

lemma homieID_rev: "homieID (rev s) = homieID s"
proof (induction s)
  case Nil
  then show ?case by simp
next
  case (Cons c cs)
  then show ?case
    by (cases cs) (auto simp: homieID_append homieID_Cons last_rev hd_rev)
qed

lemma homieID_replace_id: "homieID s \<Longrightarrow> idRe_ReplaceAllString s = s"
proof (induction s rule: homieID.induct)
  case (3 c d cs)
  then show ?case by (auto simp: hyphen_not_alnum)
qed (auto simp: hyphen_not_alnum)

lemma homieID_ToLower_id: "homieID s \<Longrightarrow> ToLower t s = s"
  unfolding ToLower_def
  by (rule map_idI) (auto dest!: homieID_set simp: toLowerRune_def isLowerOrDigit_def hyphen_def)

lemma homieID_Trim: "homieID s \<Longrightarrow> homieID (Trim s)"
  by (simp add: Trim_def TrimLeft_def TrimRight_def homieID_rev homieID_dropWhile)

lemma TrimLeft_hd: "TrimLeft s \<noteq> [] \<Longrightarrow> hd (TrimLeft s) \<noteq> hyphen"
  unfolding TrimLeft_def using hd_dropWhile[of "\<lambda>c. c = hyphen" s] by simp

lemma TrimRight_last: "TrimRight s \<noteq> [] \<Longrightarrow> last (TrimRight s) \<noteq> hyphen"
  unfolding TrimRight_def using hd_dropWhile[of "\<lambda>c. c = hyphen" "rev s"] by (simp add: last_rev)

lemma TrimRight_prefix: "TrimRight s @ rev (takeWhile (\<lambda>c. c = hyphen) (rev s)) = s"
proof -
  have "rev (takeWhile (\<lambda>c. c = hyphen) (rev s) @ dropWhile (\<lambda>c. c = hyphen) (rev s)) = rev (rev s)"
    by (simp only: takeWhile_dropWhile_id)
  then show ?thesis by (simp only: rev_append rev_rev_ident TrimRight_def)
qed

lemma TrimRight_hd: "TrimRight s \<noteq> [] \<Longrightarrow> hd (TrimRight s) = hd s"
  using TrimRight_prefix[of s] by (metis hd_append2)

lemma TrimLeft_id: "s = [] \<or> hd s \<noteq> hyphen \<Longrightarrow> TrimLeft s = s"
  unfolding TrimLeft_def by (cases s) auto

lemma TrimRight_id: "s = [] \<or> last s \<noteq> hyphen \<Longrightarrow> TrimRight s = s"
  unfolding TrimRight_def by (cases s rule: rev_cases) auto

lemma Trim_ends: "Trim s \<noteq> [] \<Longrightarrow> hd (Trim s) \<noteq> hyphen \<and> last (Trim s) \<noteq> hyphen"
proof -
  assume ne: "Trim s \<noteq> []"
  then have "TrimLeft s \<noteq> []" by (auto simp: Trim_def TrimRight_def)
  then have "hd (TrimLeft s) \<noteq> hyphen" by (rule TrimLeft_hd)
  with ne show ?thesis by (simp add: Trim_def TrimRight_hd TrimRight_last)
qed

lemma Trim_id: "s = [] \<or> (hd s \<noteq> hyphen \<and> last s \<noteq> hyphen) \<Longrightarrow> Trim s = s"
  by (auto simp: Trim_def TrimLeft_id TrimRight_id)

lemma homieID_normalizeID: "homieID (normalizeID t s)"
  by (simp add: normalizeID_def homieID_Trim homieID_replace)

text \<open>
  Claim C8. For every input string \<open>s\<close> (and whatever the Unicode case table holds),
  \<open>normalizeID s\<close> consists only of lowercase ASCII letters, digits and hyphens, has
  no leading and no trailing hyphen, and \<open>normalizeID\<close> is idempotent.
\<close>

theorem normalizeID_homie_idempotent:
  "(\<forall>c \<in> set (normalizeID t s). isLowerOrDigit c \<or> c = hyphen)
   \<and> (normalizeID t s \<noteq> [] \<longrightarrow> hd (normalizeID t s) \<noteq> hyphen \<and> last (normalizeID t s) \<noteq> hyphen)
   \<and> normalizeID t (normalizeID t s) = normalizeID t s"
proof (intro conjI ballI impI)
  fix c assume "c \<in> set (normalizeID t s)"
  then show "isLowerOrDigit c \<or> c = hyphen"
    using homieID_normalizeID homieID_set by blast
next
  assume "normalizeID t s \<noteq> []"
  then show "hd (normalizeID t s) \<noteq> hyphen" "last (normalizeID t s) \<noteq> hyphen"
    using Trim_ends[of "idRe_ReplaceAllString (ToLower t s)"] by (simp_all add: normalizeID_def)
next
  let ?n = "normalizeID t s"
  have h: "homieID ?n" by (rule homieID_normalizeID)
  have e: "?n = [] \<or> (hd ?n \<noteq> hyphen \<and> last ?n \<noteq> hyphen)"
    using Trim_ends[of "idRe_ReplaceAllString (ToLower t s)"] by (auto simp: normalizeID_def)
  have "normalizeID t ?n = Trim (idRe_ReplaceAllString (ToLower t ?n))"
    by (simp add: normalizeID_def)
  also have "\<dots> = Trim ?n"
    using h by (simp add: homieID_ToLower_id homieID_replace_id)
  also have "\<dots> = ?n" using e by (rule Trim_id)
  finally show "normalizeID t ?n = ?n" .
qed

lemma normalizeID_example:
  "normalizeID (\<lambda>r. r) (runes ''Living Room/Temp_1--'') = runes ''living-room-temp-1''"
  by code_simp

lemma normalizeID_example_member:
  "108 \<in> set (normalizeID (\<lambda>r. r) (runes ''Living Room/Temp_1--''))"
  unfolding normalizeID_example by (simp add: runes_def)

theorem normalizeID_homie_idempotent_witness:
  "normalizeID (\<lambda>r. r) (runes ''Living Room/Temp_1--'') = runes ''living-room-temp-1''
   \<and> 108 \<in> set (normalizeID (\<lambda>r. r) (runes ''Living Room/Temp_1--''))
   \<and> (isLowerOrDigit 108 \<or> 108 = hyphen)
   \<and> hd (runes ''living-room-temp-1'') \<noteq> hyphen
   \<and> last (runes ''living-room-temp-1'') \<noteq> hyphen
   \<and> normalizeID (\<lambda>r. r) (runes ''living-room-temp-1'') = runes ''living-room-temp-1''"
proof -
  have ne: "runes ''living-room-temp-1'' \<noteq> []"
    by (simp add: runes_def)
  have t: "(\<forall>c \<in> set (runes ''living-room-temp-1''). isLowerOrDigit c \<or> c = hyphen)
   \<and> (runes ''living-room-temp-1'' \<noteq> [] \<longrightarrow>
        hd (runes ''living-room-temp-1'') \<noteq> hyphen \<and> last (runes ''living-room-temp-1'') \<noteq> hyphen)
   \<and> normalizeID (\<lambda>r. r) (runes ''living-room-temp-1'') = runes ''living-room-temp-1''"
    using normalizeID_homie_idempotent[of "\<lambda>r. r" "runes ''Living Room/Temp_1--''"]
    unfolding normalizeID_example .
  have m: "108 \<in> set (runes ''living-room-temp-1'')"
    using normalizeID_example_member unfolding normalizeID_example .
  from t m ne show ?thesis
    using normalizeID_example normalizeID_example_member by blast
qed

section \<open>Prometheus client output: \<^verbatim>\<open>PrometheusClient.Init\<close>\<close>

lemma Second_le_default: "Second \<le>s defaultReadTimeout" "Second \<le>s defaultWriteTimeout"
  by (simp_all add: Second_def defaultReadTimeout_def defaultWriteTimeout_def word_sle_eq)

lemma not_sless: "\<not> (a <s b) \<Longrightarrow> b \<le>s a"
  by (simp add: word_sless_alt word_sle_eq)

text \<open>
  Claim C9. Whenever \<^verbatim>\<open>PrometheusClient.Init\<close> returns nil, the server it built has
  a read timeout and a write timeout of at least one second (a configured value below
  one second has been replaced by the ten-second default, any other value is kept),
  and an empty configured path has been replaced by \<^verbatim>\<open>/metrics\<close>.
\<close>

theorem Init_nil_timeouts_path:
  assumes "Init env p = (p', Returned None)"
  shows "\<exists>s. server p' = Some s
      \<and> Second \<le>s srv_ReadTimeout s \<and> Second \<le>s srv_WriteTimeout s
      \<and> srv_ReadTimeout s = (if ReadTimeout p <s Second then defaultReadTimeout else ReadTimeout p)
      \<and> srv_WriteTimeout s = (if WriteTimeout p <s Second then defaultWriteTimeout else WriteTimeout p)
      \<and> Path p' = (if Path p = [] then ''/metrics'' else Path p)
      \<and> Handler s = [Path p', ''/'']"
proof -
  from assms obtain tlsCfg where
    p': "p' = (setDefaultTimeouts (setDefaultPath (p\<lparr>collector := Some (chooseCollector p)\<rparr>)))
                \<lparr>server := Some (newServer tlsCfg
                   (setDefaultTimeouts (setDefaultPath (p\<lparr>collector := Some (chooseCollector p)\<rparr>))))\<rparr>"
    unfolding Init_def Let_def
    by (auto split: option.splits sum.splits if_split_asm)
  show ?thesis
    unfolding p'
    by (simp add: newServer_def setDefaultTimeouts_def setDefaultPath_def Let_def
                  Second_le_default not_sless)
qed

lemma Init_client_unset: "snd (Init env_ok client_unset) = Returned None"
  by (simp add: Init_def env_ok_def client_unset_def Let_def Second_def word_sless_alt setDefaultPath_def setDefaultTimeouts_def chooseCollector_def)

theorem Init_nil_timeouts_path_witness:
  "snd (Init env_ok client_unset) = Returned None
   \<and> (\<exists>s. server (fst (Init env_ok client_unset)) = Some s
        \<and> srv_ReadTimeout s = defaultReadTimeout
        \<and> srv_WriteTimeout s = defaultWriteTimeout
        \<and> Second \<le>s srv_ReadTimeout s \<and> Second \<le>s srv_WriteTimeout s)
   \<and> Path (fst (Init env_ok client_unset)) = ''/metrics''"
proof -
  have r: "Init env_ok client_unset = (fst (Init env_ok client_unset), Returned None)"
    using Init_client_unset by (simp add: prod_eq_iff)
  have lt: "ReadTimeout client_unset <s Second" "WriteTimeout client_unset <s Second"
    by (simp_all add: client_unset_def Second_def word_sless_alt)
  have pe: "Path client_unset = []"
    by (simp add: client_unset_def)
  from Init_nil_timeouts_path[OF r] lt pe Init_client_unset show ?thesis
    by auto
qed

section \<open>DC/OS input: \<^verbatim>\<open>createPoints\<close>, \<^verbatim>\<open>addMetrics\<close> and \<^verbatim>\<open>gatherContainers\<close>\<close>

lemma seriesKey_pair: "seriesKey t = Join (sort (map pair t)) '',''"
proof -
  have "(\<lambda>(k, v). k @ ''='' @ v) = pair"
    by (simp add: fun_eq_iff pair_def)
  then show ?thesis by (simp add: seriesKey_def)
qed


lemma no_split_at_end:
  assumes "c \<notin> set x" "x = y @ c # r"
  shows False
  using assms by auto




lemma sort_cong_mset: "mset xs = mset ys \<Longrightarrow> sort xs = sort ys"
  by (rule properties_for_sort) simp_all

lemma gomap_eq_mset:
  assumes "distinct (map fst t1)" "distinct (map fst t2)" "map_of t1 = map_of t2"
  shows "mset t1 = mset t2"
proof -
  have "set t1 = set t2" using assms by (simp add: map_of_inject_set)
  moreover have "distinct t1" "distinct t2" using assms(1,2) by (simp_all add: distinct_map)
  ultimately show ?thesis by (simp add: set_eq_iff_mset_eq_distinct)
qed

lemma seriesKey_cong:
  assumes "distinct (map fst t1)" "distinct (map fst t2)" "map_of t1 = map_of t2"
  shows "seriesKey t1 = seriesKey t2"
proof -
  have "sort (map pair t1) = sort (map pair t2)"
    by (rule sort_cong_mset) (simp add: gomap_eq_mset[OF assms])
  then show ?thesis by (simp only: seriesKey_pair)
qed





lemma map_of_assign: "map_of (assign k v m) = (map_of m)(k \<mapsto> v)"
  by (induction m) (auto simp: fun_eq_iff)

lemma keys_assign: "fst ` set (assign k v m) = insert k (fst ` set m)"
  by (simp add: dom_map_of_conv_image_fst[symmetric] map_of_assign)

lemma distinct_assign: "distinct (map fst m) \<Longrightarrow> distinct (map fst (assign k v m))"
proof (induction m)
  case Nil
  then show ?case by simp
next
  case (Cons a m)
  then show ?case using keys_assign[of k v m] by (cases a) auto
qed

lemma assign_present: "k \<in> fst ` set m \<Longrightarrow> map fst (assign k v m) = map fst m"
  by (induction m) force+

lemma keys_addDatapoint:
  "fst ` set (addDatapoint f P dp) = insert (seriesKey (tagsOf dp)) (fst ` set P)"
  by (simp add: addDatapoint_def Let_def keys_assign)

lemma distinct_addDatapoint:
  "distinct (map fst P) \<Longrightarrow> distinct (map fst (addDatapoint f P dp))"
  by (simp add: addDatapoint_def Let_def distinct_assign)

lemma fieldAt_addDatapoint:
  "fieldAt (addDatapoint f P dp) series key =
     (if seriesKey (tagsOf dp) = series \<and> fieldKey dp = key then Some (fieldValue f dp)
      else fieldAt P series key)"
  by (auto simp: fieldAt_def addDatapoint_def Let_def map_of_assign split: option.splits)

lemma fold_addDatapoint_keys:
  "fst ` set (foldl (addDatapoint f) P dps) =
     fst ` set P \<union> (\<lambda>d. seriesKey (tagsOf d)) ` set dps"
  by (induction dps arbitrary: P) (simp_all add: keys_addDatapoint)

lemma fold_addDatapoint_distinct:
  "distinct (map fst P) \<Longrightarrow> distinct (map fst (foldl (addDatapoint f) P dps))"
  by (induction dps arbitrary: P) (auto simp: distinct_addDatapoint)

lemma fieldAt_fold:
  "fieldAt (foldl (addDatapoint f) P dps) series key =
     (case lastWriter dps series key of
        Some d \<Rightarrow> Some (fieldValue f d)
      | None \<Rightarrow> fieldAt P series key)"
proof (induction dps rule: rev_induct)
  case Nil
  then show ?case by (simp add: lastWriter_def)
next
  case (snoc d dps)
  then show ?case by (simp add: lastWriter_def fieldAt_addDatapoint)
qed

lemma collectPoints_keys:
  "fst ` set (collectPoints f dps) = (\<lambda>d. seriesKey (tagsOf d)) ` set dps"
  by (simp add: collectPoints_def fold_addDatapoint_keys)

lemma collectPoints_distinct: "distinct (map fst (collectPoints f dps))"
  by (simp add: collectPoints_def fold_addDatapoint_distinct)

lemma fieldAt_Nil: "fieldAt [] series key = None"
  by (simp add: fieldAt_def)

lemma collectPoints_fieldAt:
  "fieldAt (collectPoints f dps) series key = map_option (fieldValue f) (lastWriter dps series key)"
  by (simp add: collectPoints_def fieldAt_fold fieldAt_Nil split: option.splits)

lemma collectPoints_card:
  "length (collectPoints f dps) = card ((\<lambda>d. seriesKey (tagsOf d)) ` set dps)"
proof -
  have "length (collectPoints f dps) = length (map fst (collectPoints f dps))" by simp
  also have "\<dots> = card (set (map fst (collectPoints f dps)))"
    using collectPoints_distinct by (metis distinct_card)
  also have "\<dots> = card ((\<lambda>d. seriesKey (tagsOf d)) ` set dps)"
    by (simp add: collectPoints_keys)
  finally show ?thesis .
qed

lemma applyDimension_fields: "p_fields (applyDimension p kv) = p_fields p"
  by (simp add: applyDimension_def split: dimension.splits)

lemma applyDimensions_fields: "p_fields (applyDimensions dims p) = p_fields p"
  unfolding applyDimensions_def
  by (induction dims arbitrary: p) (simp_all add: applyDimension_fields)

lemma find_Some_member: "find P xs = Some x \<Longrightarrow> P x \<and> x \<in> set xs"
  by (induction xs) (auto split: if_splits)

lemma lastWriter_exists:
  assumes "dp \<in> set dps"
  shows "\<exists>d. lastWriter dps (seriesKey (tagsOf dp)) (fieldKey dp) = Some d \<and> d \<in> set dps
          \<and> seriesKey (tagsOf d) = seriesKey (tagsOf dp) \<and> fieldKey d = fieldKey dp"
proof (cases "lastWriter dps (seriesKey (tagsOf dp)) (fieldKey dp)")
  case None
  with assms show ?thesis by (auto simp: lastWriter_def find_None_iff)
next
  case (Some d)
  then have "find (\<lambda>d. seriesKey (tagsOf d) = seriesKey (tagsOf dp) \<and> fieldKey d = fieldKey dp)
               (rev dps) = Some d"
    by (simp add: lastWriter_def)
  from find_Some_member[OF this] Some show ?thesis by simp
qed

lemma HasSuffix_iff: "HasSuffix s t = (\<exists>u. s = u @ t)"
proof
  assume h: "HasSuffix s t"
  have "s = take (length s - length t) s @ drop (length s - length t) s"
    by simp
  with h have "s = take (length s - length t) s @ t"
    by (simp add: HasSuffix_def)
  then show "\<exists>u. s = u @ t" ..
next
  assume "\<exists>u. s = u @ t"
  then show "HasSuffix s t" by (auto simp: HasSuffix_def)
qed

lemma TrimPrefix_decompose: "HasPrefix s p \<Longrightarrow> p @ TrimPrefix s p = s"
proof -
  assume h: "HasPrefix s p"
  have "take (length p) s @ drop (length p) s = s" by simp
  with h show ?thesis by (simp add: HasPrefix_def TrimPrefix_def)
qed

lemma overlap_cases:
  assumes "u @ ''_bytes'' = ''dcos_metrics_module_'' @ r"
  shows "(\<exists>w. r = w @ ''_bytes'') \<or> r = ''bytes''"
proof -
  from assms obtain us where
    "(u = ''dcos_metrics_module_'' @ us \<and> us @ ''_bytes'' = r)
     \<or> (u @ us = ''dcos_metrics_module_'' \<and> ''_bytes'' = us @ r)"
    unfolding append_eq_append_conv2 by blast
  then show ?thesis
  proof
    assume "u = ''dcos_metrics_module_'' @ us \<and> us @ ''_bytes'' = r"
    then show ?thesis by blast
  next
    assume a: "u @ us = ''dcos_metrics_module_'' \<and> ''_bytes'' = us @ r"
    show ?thesis
    proof (cases us)
      case Nil
      with a have "r = [] @ ''_bytes''" by simp
      then show ?thesis by blast
    next
      case (Cons c us')
      with a have b: "''bytes'' = us' @ r" by simp
      show ?thesis
      proof (cases "us' = []")
        case True
        with b show ?thesis by simp
      next
        case False
        from a have "last (u @ us) = last ''dcos_metrics_module_''" by (simp only:)
        with False Cons have "last us' = CHR ''_''" by simp
        moreover have "last us' \<in> set (us' @ r)" using False by simp
        ultimately have "CHR ''_'' \<in> set ''bytes''" using b by (simp only:)
        then show ?thesis by simp
      qed
    qed
  qed
qed

lemma HasSuffix_append: "HasSuffix (s @ t) t"
  by (simp add: HasSuffix_def)

lemma suffixedKey_bytes: "dp_Unit dp = ''bytes'' \<Longrightarrow> HasSuffix (suffixedKey dp) ''_bytes''"
  by (simp add: suffixedKey_def Let_def HasSuffix_append)

lemma fieldKey_bytes_suffix:
  assumes "dp_Unit dp = ''bytes''" "suffixedKey dp \<noteq> ''dcos_metrics_module_bytes''"
  shows "HasSuffix (fieldKey dp) ''_bytes''"
proof (cases "HasPrefix (suffixedKey dp) ''dcos_metrics_module_''")
  case False
  then show ?thesis using suffixedKey_bytes[OF assms(1)] by (simp add: fieldKey_def TrimPrefix_def)
next
  case True
  have k: "''dcos_metrics_module_'' @ fieldKey dp = suffixedKey dp"
    unfolding fieldKey_def by (rule TrimPrefix_decompose[OF True])
  from suffixedKey_bytes[OF assms(1)] obtain u where "suffixedKey dp = u @ ''_bytes''"
    unfolding HasSuffix_iff by blast
  with k have "u @ ''_bytes'' = ''dcos_metrics_module_'' @ fieldKey dp" by simp
  from overlap_cases[OF this] show ?thesis
  proof
    assume "\<exists>w. fieldKey dp = w @ ''_bytes''"
    then show ?thesis unfolding HasSuffix_iff .
  next
    assume "fieldKey dp = ''bytes''"
    with k assms(2) show ?thesis by simp
  qed
qed

lemma find_append_cases:
  "find P (xs @ ys) = (case find P xs of None \<Rightarrow> find P ys | Some x \<Rightarrow> Some x)"
  by (induction xs) auto

lemma lastWriter_not_overwritten:
  assumes "\<forall>d \<in> set post. seriesKey (tagsOf d) \<noteq> seriesKey (tagsOf dp) \<or> fieldKey d \<noteq> fieldKey dp"
  shows "lastWriter (pre @ dp # post) (seriesKey (tagsOf dp)) (fieldKey dp) = Some dp"
proof -
  have "find (\<lambda>d. seriesKey (tagsOf d) = seriesKey (tagsOf dp) \<and> fieldKey d = fieldKey dp)
          (rev post) = None"
    using assms by (auto simp: find_None_iff)
  then show ?thesis by (simp add: lastWriter_def find_append_cases)
qed

lemma collectPoints_lookup:
  assumes "dp \<in> set dps"
  shows "\<exists>p. map_of (collectPoints f dps) (seriesKey (tagsOf dp)) = Some p
           \<and> (seriesKey (tagsOf dp), p) \<in> set (collectPoints f dps)
           \<and> map_of (p_fields p) key
               = map_option (fieldValue f) (lastWriter dps (seriesKey (tagsOf dp)) key)"
proof -
  have "seriesKey (tagsOf dp) \<in> fst ` set (collectPoints f dps)"
    using assms by (simp add: collectPoints_keys)
  then obtain p where p: "map_of (collectPoints f dps) (seriesKey (tagsOf dp)) = Some p"
    by (metis map_of_eq_None_iff not_Some_eq)
  have "fieldAt (collectPoints f dps) (seriesKey (tagsOf dp)) key = map_of (p_fields p) key"
    using p by (simp add: fieldAt_def)
  with p show ?thesis
    using collectPoints_fieldAt[of f dps "seriesKey (tagsOf dp)" key] map_of_SomeD[OF p] by simp
qed

text \<open>
  Claim C10, as the code has it. \<^verbatim>\<open>createPoints\<close> returns one point per series key of
  the datapoints, so datapoints with equal tag mappings share a point. A datapoint that
  no later datapoint of its series overwrites under the same field key is found in the
  point of its series, as \<^verbatim>\<open>int64(dp.Value)\<close> when its unit is \<open>bytes\<close> and as its
  float value otherwise. The key of a \<open>bytes\<close> datapoint ends in \<open>_bytes\<close>, the
  suffix being appended only when it is missing; the one key left out here is
  \<open>dcos_metrics_module_bytes\<close>, whose prefix removal takes the underscore of the suffix
  along.
\<close>

theorem createPoints_merges_and_converts:
  assumes "Datapoints m = pre @ dp # post"
      and "\<forall>d \<in> set post. seriesKey (tagsOf d) \<noteq> seriesKey (tagsOf dp) \<or> fieldKey d \<noteq> fieldKey dp"
  shows "length (createPoints f m) = card ((\<lambda>d. seriesKey (tagsOf d)) ` set (Datapoints m))
       \<and> (\<exists>p. map_of (collectPoints f (Datapoints m)) (seriesKey (tagsOf dp)) = Some p
             \<and> applyDimensions (Dimensions m) p \<in> set (createPoints f m)
             \<and> map_of (p_fields (applyDimensions (Dimensions m) p)) (fieldKey dp)
                 = Some (if dp_Unit dp = ''bytes'' then Int64 (f (dp_Value dp))
                         else Float64 (dp_Value dp)))
       \<and> (\<forall>d. distinct (map fst (tagsOf d)) \<and> distinct (map fst (tagsOf dp))
               \<and> map_of (tagsOf d) = map_of (tagsOf dp)
               \<longrightarrow> seriesKey (tagsOf d) = seriesKey (tagsOf dp))
       \<and> (dp_Unit dp = ''bytes'' \<and> suffixedKey dp \<noteq> ''dcos_metrics_module_bytes''
            \<longrightarrow> HasSuffix (fieldKey dp) ''_bytes'')
       \<and> (dp_Unit dp = ''bytes''
            \<and> HasSuffix (ReplaceAll_byte (dp_Name dp) CHR ''.'' CHR ''_'') ''_bytes''
            \<longrightarrow> suffixedKey dp = ReplaceAll_byte (dp_Name dp) CHR ''.'' CHR ''_'')"
proof (intro conjI)
  show "length (createPoints f m) = card ((\<lambda>d. seriesKey (tagsOf d)) ` set (Datapoints m))"
    by (simp add: createPoints_def collectPoints_card)
next
  have mem: "dp \<in> set (Datapoints m)" using assms(1) by simp
  from collectPoints_lookup[OF mem, of f "fieldKey dp"] obtain p where
    p: "map_of (collectPoints f (Datapoints m)) (seriesKey (tagsOf dp)) = Some p"
    and i: "(seriesKey (tagsOf dp), p) \<in> set (collectPoints f (Datapoints m))"
    and v: "map_of (p_fields p) (fieldKey dp)
            = map_option (fieldValue f) (lastWriter (Datapoints m) (seriesKey (tagsOf dp)) (fieldKey dp))"
    by blast
  have "lastWriter (Datapoints m) (seriesKey (tagsOf dp)) (fieldKey dp) = Some dp"
    unfolding assms(1) using assms(2) by (rule lastWriter_not_overwritten)
  with v have "map_of (p_fields (applyDimensions (Dimensions m) p)) (fieldKey dp)
      = Some (if dp_Unit dp = ''bytes'' then Int64 (f (dp_Value dp)) else Float64 (dp_Value dp))"
    by (simp add: applyDimensions_fields fieldValue_def)
  moreover have "applyDimensions (Dimensions m) p \<in> set (createPoints f m)"
    using i by (force simp: createPoints_def)
  ultimately show "\<exists>p. map_of (collectPoints f (Datapoints m)) (seriesKey (tagsOf dp)) = Some p
             \<and> applyDimensions (Dimensions m) p \<in> set (createPoints f m)
             \<and> map_of (p_fields (applyDimensions (Dimensions m) p)) (fieldKey dp)
                 = Some (if dp_Unit dp = ''bytes'' then Int64 (f (dp_Value dp))
                         else Float64 (dp_Value dp))"
    using p by blast
next
  show "\<forall>d. distinct (map fst (tagsOf d)) \<and> distinct (map fst (tagsOf dp))
               \<and> map_of (tagsOf d) = map_of (tagsOf dp)
               \<longrightarrow> seriesKey (tagsOf d) = seriesKey (tagsOf dp)"
    using seriesKey_cong by blast
next
  show "dp_Unit dp = ''bytes'' \<and> suffixedKey dp \<noteq> ''dcos_metrics_module_bytes''
            \<longrightarrow> HasSuffix (fieldKey dp) ''_bytes''"
    using fieldKey_bytes_suffix by blast
next
  show "dp_Unit dp = ''bytes''
            \<and> HasSuffix (ReplaceAll_byte (dp_Name dp) CHR ''.'' CHR ''_'') ''_bytes''
            \<longrightarrow> suffixedKey dp = ReplaceAll_byte (dp_Name dp) CHR ''.'' CHR ''_''"
    by (simp add: suffixedKey_def Let_def)
qed

lemma createPoints_nodeMetrics:
  "createPoints word_of_int nodeMetrics =
     [\<lparr>p_tags = [(''path'', ''/''), (''hostname'', ''n1'')], p_labels = [(''env'', ''prod'')],
       p_fields = [(''mem_total_bytes'', Int64 4096),
                   (''filesystem_capacity_free_bytes'', Int64 1024)]\<rparr>,
      \<lparr>p_tags = [(''hostname'', ''n1'')], p_labels = [(''env'', ''prod'')],
       p_fields = [(''load_1min'', Float64 2)]\<rparr>]"
  by (simp add: createPoints_def collectPoints_def nodeMetrics_def memTotal_def load1_def
        fsFree_def addDatapoint_def Let_def
        seriesKey_def tagsOf_def fieldKey_def suffixedKey_def fieldValue_def ReplaceAll_byte_def
        HasSuffix_def HasPrefix_def TrimPrefix_def applyDimensions_def applyDimension_def)

text \<open>
  Claim C10 as stated fails on two inputs. A later datapoint of the same series with the
  same field key replaces the field: the first datapoint here, whose unit is \<open>bytes\<close>,
  is not stored as an integer field, and the point holds the float of the second one.
  And the name \<open>dcos.metrics.module\<close> with unit \<open>bytes\<close> is stored under the key
  \<open>bytes\<close>: the prefix removal takes the underscore of the appended suffix along.
\<close>

theorem createPoints_later_datapoint_overwrites:
  "createPoints word_of_int \<lparr>Datapoints = [overwriteA, overwriteB], Dimensions = []\<rparr> =
     [\<lparr>p_tags = [(''host'', ''n1'')], p_labels = [],
       p_fields = [(''mem_total_bytes'', Float64 50)]\<rparr>]
   \<and> dp_Unit overwriteA = ''bytes''
   \<and> createPoints word_of_int \<lparr>Datapoints = [moduleBytes], Dimensions = []\<rparr> =
     [\<lparr>p_tags = [], p_labels = [], p_fields = [(''bytes'', Int64 7)]\<rparr>]
   \<and> dp_Unit moduleBytes = ''bytes''
   \<and> \<not> HasSuffix ''bytes'' ''_bytes''"
  by (simp add: createPoints_def collectPoints_def overwriteA_def overwriteB_def moduleBytes_def
        addDatapoint_def Let_def seriesKey_def tagsOf_def fieldKey_def suffixedKey_def
        fieldValue_def ReplaceAll_byte_def HasSuffix_def HasPrefix_def TrimPrefix_def
        applyDimensions_def)

theorem createPoints_merges_and_converts_witness:
  "Datapoints nodeMetrics = [] @ memTotal # [load1, fsFree]
   \<and> seriesKey (tagsOf load1) \<noteq> seriesKey (tagsOf memTotal)
   \<and> fieldKey fsFree \<noteq> fieldKey memTotal
   \<and> length (createPoints word_of_int nodeMetrics) = 2
   \<and> (\<exists>p. map_of (collectPoints word_of_int (Datapoints nodeMetrics)) (seriesKey (tagsOf memTotal)) = Some p
         \<and> applyDimensions (Dimensions nodeMetrics) p \<in> set (createPoints word_of_int nodeMetrics)
         \<and> map_of (p_fields (applyDimensions (Dimensions nodeMetrics) p)) ''mem_total_bytes''
              = Some (Int64 4096))
   \<and> HasSuffix (fieldKey memTotal) ''_bytes''"
proof -
  have s: "seriesKey (tagsOf memTotal) = ''path=/''" "seriesKey (tagsOf load1) = []"
    "seriesKey (tagsOf fsFree) = ''path=/''"
    by (simp_all add: memTotal_def load1_def fsFree_def tagsOf_def seriesKey_def)
  have k: "suffixedKey memTotal = ''dcos_metrics_module_mem_total_bytes''"
    "fieldKey memTotal = ''mem_total_bytes''" "fieldKey fsFree = ''filesystem_capacity_free_bytes''"
    by (simp_all add: memTotal_def fsFree_def fieldKey_def suffixedKey_def ReplaceAll_byte_def
          HasSuffix_def HasPrefix_def TrimPrefix_def)
  have d: "Datapoints nodeMetrics = [] @ memTotal # [load1, fsFree]"
    by (simp add: nodeMetrics_def)
  have o: "\<forall>d \<in> set [load1, fsFree].
             seriesKey (tagsOf d) \<noteq> seriesKey (tagsOf memTotal) \<or> fieldKey d \<noteq> fieldKey memTotal"
    by (simp add: s k)
  have u: "dp_Unit memTotal = ''bytes''" "dp_Value memTotal = 4096"
    by (simp_all add: memTotal_def)
  have c: "length (createPoints word_of_int nodeMetrics) = 2"
    by (simp add: createPoints_nodeMetrics)
  note t = createPoints_merges_and_converts[OF d o, of word_of_int]
  have "\<exists>p. map_of (collectPoints word_of_int (Datapoints nodeMetrics)) (seriesKey (tagsOf memTotal)) = Some p
         \<and> applyDimensions (Dimensions nodeMetrics) p \<in> set (createPoints word_of_int nodeMetrics)
         \<and> map_of (p_fields (applyDimensions (Dimensions nodeMetrics) p)) (fieldKey memTotal)
              = Some (if dp_Unit memTotal = ''bytes'' then Int64 (word_of_int (dp_Value memTotal))
                      else Float64 (dp_Value memTotal))"
    by (rule t[THEN conjunct2, THEN conjunct1])
  then have e: "\<exists>p. map_of (collectPoints word_of_int (Datapoints nodeMetrics)) (seriesKey (tagsOf memTotal)) = Some p
         \<and> applyDimensions (Dimensions nodeMetrics) p \<in> set (createPoints word_of_int nodeMetrics)
         \<and> map_of (p_fields (applyDimensions (Dimensions nodeMetrics) p)) ''mem_total_bytes''
              = Some (Int64 4096)"
    unfolding u k by simp
  have h: "HasSuffix (fieldKey memTotal) ''_bytes''"
    using t[THEN conjunct2, THEN conjunct2, THEN conjunct2, THEN conjunct1] u(1) k(1) by simp
  have n1: "seriesKey (tagsOf load1) \<noteq> seriesKey (tagsOf memTotal)" by (simp add: s)
  have n2: "fieldKey fsFree \<noteq> fieldKey memTotal" by (simp add: k)
  from d n1 n2 c e h show ?thesis by (intro conjI)
qed

lemma map_of_rev_distinct: "distinct (map fst xs) \<Longrightarrow> map_of (rev xs) = map_of xs"
  by (subst map_of_inject_set) (simp_all add: rev_map[symmetric])

lemma foldl_assign_lookup:
  "map_of (foldl (\<lambda>tags (k, v). assign k v tags) t kvs) key =
     (case map_of (rev kvs) key of Some v \<Rightarrow> Some v | None \<Rightarrow> map_of t key)"
  by (induction kvs rule: rev_induct) (auto simp: map_of_assign)

lemma foldl_dimension_lookup:
  "map_of (foldl (\<lambda>tags tagkey. case map_of src tagkey of
                      Some v \<Rightarrow> assign tagkey v tags | None \<Rightarrow> tags) t dims) key =
     (if key \<in> set dims \<and> map_of src key \<noteq> None then map_of src key else map_of t key)"
  by (induction dims rule: rev_induct) (auto simp: map_of_assign split: option.splits)

lemma pointTags_lookup:
  assumes "distinct (map fst (p_labels p))"
  shows "map_of (pointTags cluster dims p) key =
     (case map_of (p_labels p) key of
        Some v \<Rightarrow> Some v
      | None \<Rightarrow> (if key \<in> set dims \<and> map_of (p_tags p) key \<noteq> None then map_of (p_tags p) key
                 else if key = ''cluster'' then Some cluster else None))"
  by (simp add: pointTags_def Let_def foldl_assign_lookup foldl_dimension_lookup
        map_of_rev_distinct[OF assms] split: option.splits)

lemma appends_id: "appends (\<lambda>acc. acc) [] []"
  by (simp add: appends_def)

lemma appends_AddError: "appends (AddError err) [] [err]"
  by (simp add: appends_def AddError_def)

lemma appends_AddFields: "\<exists>ms es. appends (AddFields build n fl tg tm) ms es"
proof (cases "build n fl tg tm")
  case (Inl err)
  then have "appends (AddFields build n fl tg tm) [] [err]"
    by (simp add: appends_def AddFields_def AddError_def)
  then show ?thesis by blast
next
  case (Inr m)
  then have "appends (AddFields build n fl tg tm) [m] []"
    by (simp add: appends_def AddFields_def)
  then show ?thesis by blast
qed

lemma appends_comp:
  assumes "appends r1 ms1 es1" "appends r2 ms2 es2"
  shows "appends (\<lambda>acc. r2 (r1 acc)) (ms1 @ ms2) (es1 @ es2)"
  using assms by (simp add: appends_def)

lemma appends_foldl:
  assumes "\<And>x. \<exists>ms es. appends (step x) ms es"
  shows "\<exists>ms es. appends (\<lambda>acc. foldl (\<lambda>acc x. step x acc) acc xs) ms es"
proof (induction xs rule: rev_induct)
  case Nil
  show ?case using appends_id by (auto simp del: append_Nil2)
next
  case (snoc x xs)
  then obtain ms es where a: "appends (\<lambda>acc. foldl (\<lambda>acc x. step x acc) acc xs) ms es" by blast
  from assms obtain ms' es' where b: "appends (step x) ms' es'" by blast
  from appends_comp[OF a b] show ?case by auto
qed

lemma appends_addMetrics:
  "\<exists>ms es. appends (addMetrics build tm f cluster mname m dims) ms es"
proof -
  have "\<exists>ms es. appends (\<lambda>acc. foldl (\<lambda>acc p. AddFields build mname (p_fields p)
            (pointTags cluster dims p) tm acc) acc (createPoints f m)) ms es"
    by (rule appends_foldl) (rule appends_AddFields)
  then show ?thesis by (simp add: addMetrics_def[abs_def])
qed

lemma appends_fetched:
  assumes "\<And>m. \<exists>ms es. appends (add m) ms es"
  shows "\<exists>ms es. appends (\<lambda>acc. case r of
            Inl err \<Rightarrow> if isNotFound err then acc else AddError err acc
          | Inr m \<Rightarrow> add m acc) ms es"
proof (cases r)
  case (Inl err)
  show ?thesis
  proof (cases "isNotFound err")
    case True
    with Inl have "appends (\<lambda>acc. case r of
            Inl err \<Rightarrow> if isNotFound err then acc else AddError err acc
          | Inr m \<Rightarrow> add m acc) [] []"
      by (simp add: appends_def)
    then show ?thesis by blast
  next
    case False
    with Inl have "appends (\<lambda>acc. case r of
            Inl err \<Rightarrow> if isNotFound err then acc else AddError err acc
          | Inr m \<Rightarrow> add m acc) [] [err]"
      by (simp add: appends_def AddError_def)
    then show ?thesis by blast
  qed
next
  case (Inr m)
  from assms obtain ms es where "appends (add m) ms es" by blast
  with Inr have "appends (\<lambda>acc. case r of
            Inl err \<Rightarrow> if isNotFound err then acc else AddError err acc
          | Inr m \<Rightarrow> add m acc) ms es"
    by (simp add: appends_def)
  then show ?thesis by blast
qed

lemma appends_filtered:
  assumes "\<exists>ms es. appends run ms es"
  shows "\<exists>ms es. appends (\<lambda>acc. if b then run acc else acc) ms es"
proof (cases b)
  case True
  with assms show ?thesis by simp
next
  case False
  then have "appends (\<lambda>acc. if b then run acc else acc) [] []"
    by (simp add: appends_def)
  then show ?thesis by blast
qed

lemma appends_gatherContainer:
  "\<exists>ms es. appends (gatherContainer build tm f d cluster node c) ms es"
proof -
  have c1: "\<And>m. \<exists>ms es. appends (addContainerMetrics build tm f cluster m) ms es"
    unfolding addContainerMetrics_def[abs_def] by (rule appends_addMetrics)
  have a1: "\<And>m. \<exists>ms es. appends (addAppMetrics build tm f cluster m) ms es"
    unfolding addAppMetrics_def[abs_def] by (rule appends_addMetrics)
  obtain ms1 es1 where 1: "appends (\<lambda>acc.
        if containerFilter d c then
           (case getContainerMetrics (dcos_client d) node c of
              Inl err \<Rightarrow> if isNotFound err then acc else AddError err acc
            | Inr m \<Rightarrow> addContainerMetrics build tm f cluster m acc)
         else acc) ms1 es1"
    using appends_filtered[OF appends_fetched[of "addContainerMetrics build tm f cluster", OF c1]]
    by blast
  obtain ms2 es2 where 2: "appends (\<lambda>acc1.
        if appFilter d c then
           (case getAppMetrics (dcos_client d) node c of
              Inl err \<Rightarrow> if isNotFound err then acc1 else AddError err acc1
            | Inr m \<Rightarrow> addAppMetrics build tm f cluster m acc1)
         else acc1) ms2 es2"
    using appends_filtered[OF appends_fetched[of "addAppMetrics build tm f cluster", OF a1]]
    by blast
  from appends_comp[OF 1 2] show ?thesis
    unfolding gatherContainer_def[abs_def] Let_def by blast
qed

lemma appends_gatherContainers:
  "\<exists>ms es. appends (gatherContainers build tm f d cluster node) ms es"
proof (cases "getContainers (dcos_client d) node")
  case (Inl err)
  then have "gatherContainers build tm f d cluster node = AddError err"
    by (simp add: gatherContainers_def fun_eq_iff)
  then show ?thesis using appends_AddError by metis
next
  case (Inr containers)
  then have "gatherContainers build tm f d cluster node =
      (\<lambda>acc. foldl (\<lambda>acc c. gatherContainer build tm f d cluster node c acc) acc containers)"
    by (simp add: gatherContainers_def fun_eq_iff)
  then show ?thesis
    using appends_foldl[of "gatherContainer build tm f d cluster node" containers,
                        OF appends_gatherContainer] by simp
qed

text \<open>
  Claim C7. Storing under a key that is already present replaces the value and adds no
  entry, and nothing is reported: \<open>assign\<close> has no other result than the map. In the
  tags that \<^verbatim>\<open>addMetrics\<close> builds the last writer wins (a label over a tag
  dimension, a tag dimension over the cluster name), and in the fields that
  \<^verbatim>\<open>createPoints\<close> collects the last datapoint of a series that wrote a key wins.
\<close>

theorem assignment_overwrites_last_write_wins:
  assumes "distinct (map fst (p_labels p))"
  shows "map_of (assign k v m) = (map_of m)(k \<mapsto> v)
       \<and> (k \<in> fst ` set m \<longrightarrow> map fst (assign k v m) = map fst m)
       \<and> map_of (pointTags cluster dims p) key =
           (case map_of (p_labels p) key of
              Some l \<Rightarrow> Some l
            | None \<Rightarrow> (if key \<in> set dims \<and> map_of (p_tags p) key \<noteq> None then map_of (p_tags p) key
                       else if key = ''cluster'' then Some cluster else None))
       \<and> fieldAt (addDatapoint f points dp) (seriesKey (tagsOf dp)) (fieldKey dp)
           = Some (fieldValue f dp)
       \<and> fieldAt (collectPoints f dps) series fkey
           = map_option (fieldValue f) (lastWriter dps series fkey)"
  using assms
  by (simp add: map_of_assign assign_present pointTags_lookup fieldAt_addDatapoint
        collectPoints_fieldAt)

theorem assignment_overwrites_last_write_wins_witness:
  "distinct (map fst (p_labels taskPoint))
   \<and> map_of (p_tags taskPoint) ''hostname'' = Some ''n1''
   \<and> map_of (pointTags ''green'' containerDimensions taskPoint) ''hostname'' = Some ''alias''
   \<and> map_of (pointTags ''green'' containerDimensions taskPoint) ''cluster'' = Some ''blue''
   \<and> map_of (pointTags ''green'' containerDimensions taskPoint) ''task_name'' = Some ''web''
   \<and> map_of (pointTags ''green'' containerDimensions taskPoint) ''path'' = None
   \<and> assign ''b'' (2::nat) [(''a'', 1), (''b'', 1)] = [(''a'', 1), (''b'', 2)]"
proof -
  have d: "distinct (map fst (p_labels taskPoint))"
    by (simp add: taskPoint_def)
  have t: "map_of (pointTags ''green'' containerDimensions taskPoint) key =
           (case map_of (p_labels taskPoint) key of
              Some l \<Rightarrow> Some l
            | None \<Rightarrow> (if key \<in> set containerDimensions \<and> map_of (p_tags taskPoint) key \<noteq> None
                       then map_of (p_tags taskPoint) key
                       else if key = ''cluster'' then Some ''green'' else None))" for key
    by (rule assignment_overwrites_last_write_wins[OF d, THEN conjunct2, THEN conjunct2, THEN conjunct1])
  have "map_of (pointTags ''green'' containerDimensions taskPoint) ''hostname'' = Some ''alias''"
       "map_of (pointTags ''green'' containerDimensions taskPoint) ''cluster'' = Some ''blue''"
       "map_of (pointTags ''green'' containerDimensions taskPoint) ''task_name'' = Some ''web''"
       "map_of (pointTags ''green'' containerDimensions taskPoint) ''path'' = None"
    unfolding t by (simp_all add: taskPoint_def containerDimensions_def)
  with d show ?thesis by (simp add: taskPoint_def)
qed

text \<open>
  Claim C6. \<open>AddError\<close> records the error and leaves the metrics alone; an
  \<open>AddFields\<close> after it forwards what it would have forwarded without it; a run of
  \<^verbatim>\<open>gatherContainers\<close> after it collects the same metrics, still holds the recorded
  error when it ends, and in general only appends to what the accumulator held.
\<close>

theorem AddError_recorded_and_harmless:
  "acc_errors (AddError err acc) = acc_errors acc @ [err]
   \<and> acc_metrics (AddError err acc) = acc_metrics acc
   \<and> acc_metrics (AddFields build n fl tg tm (AddError err acc))
       = acc_metrics (AddFields build n fl tg tm acc)
   \<and> acc_metrics (gatherContainers build tm f d cluster node (AddError err acc))
       = acc_metrics (gatherContainers build tm f d cluster node acc)
   \<and> prefix (acc_errors acc @ [err])
        (acc_errors (gatherContainers build tm f d cluster node (AddError err acc)))
   \<and> (\<exists>ms es. \<forall>a. gatherContainers build tm f d cluster node a
          = \<lparr>acc_metrics = acc_metrics a @ ms, acc_errors = acc_errors a @ es\<rparr>)"
proof -
  obtain ms es where g: "appends (gatherContainers build tm f d cluster node) ms es"
    using appends_gatherContainers[of build tm f d cluster node] by blast
  obtain ms' es' where a: "appends (AddFields build n fl tg tm) ms' es'"
    using appends_AddFields[of build n fl tg tm] by blast
  have 1: "acc_errors (AddError err acc) = acc_errors acc @ [err]"
    and 2: "acc_metrics (AddError err acc) = acc_metrics acc"
    by (simp_all add: AddError_def)
  have 3: "acc_metrics (AddFields build n fl tg tm (AddError err acc))
       = acc_metrics (AddFields build n fl tg tm acc)"
    using a by (simp add: appends_def 2)
  have 4: "acc_metrics (gatherContainers build tm f d cluster node (AddError err acc))
       = acc_metrics (gatherContainers build tm f d cluster node acc)"
    using g by (simp add: appends_def 2)
  have 5: "prefix (acc_errors acc @ [err])
        (acc_errors (gatherContainers build tm f d cluster node (AddError err acc)))"
    using g by (simp add: appends_def 1)
  have 6: "\<exists>ms es. \<forall>a. gatherContainers build tm f d cluster node a
          = \<lparr>acc_metrics = acc_metrics a @ ms, acc_errors = acc_errors a @ es\<rparr>"
    using g unfolding appends_def by blast
  from 1 2 3 4 5 6 show ?thesis by blast
qed

lemma gatherContainers_flaky:
  "gatherContainers tupleBuilder (0::nat) word_of_int flakyDCOS ''c'' ''n''
      \<lparr>acc_metrics = [], acc_errors = []\<rparr>
   = \<lparr>acc_metrics = [(''dcos_container'', [(''mem_total_bytes'', Int64 4096)],
                        [(''cluster'', ''c''), (''container_id'', ''c2'')], 0)],
      acc_errors = [ApiError 500 ''internal'']\<rparr>"
  by (simp add: gatherContainers_def gatherContainer_def flakyDCOS_def isNotFound_def
        AddError_def addContainerMetrics_def addMetrics_def AddFields_def tupleBuilder_def
        containerMetrics_def containerDimensions_def pointTags_def
        createPoints_def collectPoints_def addDatapoint_def Let_def
        seriesKey_def tagsOf_def fieldKey_def suffixedKey_def fieldValue_def ReplaceAll_byte_def
        HasSuffix_def HasPrefix_def TrimPrefix_def applyDimensions_def applyDimension_def)

theorem AddError_recorded_and_harmless_witness:
  "acc_metrics (gatherContainers tupleBuilder (0::nat) word_of_int flakyDCOS ''c'' ''n''
      (AddError (ErrorString ''earlier'') \<lparr>acc_metrics = [], acc_errors = []\<rparr>))
   = [(''dcos_container'', [(''mem_total_bytes'', Int64 4096)],
       [(''cluster'', ''c''), (''container_id'', ''c2'')], 0)]
   \<and> acc_errors (AddError (ErrorString ''earlier'') \<lparr>acc_metrics = [], acc_errors = []\<rparr>)
       = [ErrorString ''earlier'']
   \<and> acc_errors (gatherContainers tupleBuilder (0::nat) word_of_int flakyDCOS ''c'' ''n''
         \<lparr>acc_metrics = [], acc_errors = []\<rparr>) = [ApiError 500 ''internal'']"
  using AddError_recorded_and_harmless[of "ErrorString ''earlier''"
          "\<lparr>acc_metrics = [], acc_errors = []\<rparr>" tupleBuilder "''dcos_container''" "[]" "[]"
          0 word_of_int flakyDCOS "''c''" "''n''"]
  by (simp add: gatherContainers_flaky AddError_def)

section \<open>Metrics and the write contract: \<^verbatim>\<open>metric.New\<close> and \<^verbatim>\<open>Write\<close>\<close>

subsection \<open>The loop of the UDP client\<close>


lemma udp_Write_connected:
  "connection c = Some (w, hist) \<Longrightarrow> udp_Write c ms = writeMetrics c w hist [] [] ms"
  by (auto simp: connection_def udp_Write_def split: option.splits sum.splits)









subsection \<open>The UDP tests\<close>

text \<open>
  The payloads of the metrics of the tests, and the lines they are written in.
\<close>

lemma getMetric_serialized: "lineSerializer 512 getMetric = Inr ''cpu value=42 0\<newline>''"
  by (simp add: lineSerializer_def getMetric_def New_def storeFields_def List.map_filter_simps
        seriesName_def showInt_def showNat.simps)

lemma getMetric_need_more_space:
  "lineSerializer 1 getMetric = Inl (quoted ''cpu'' @ '': need more space'')"
  by (simp add: lineSerializer_def getMetric_def New_def storeFields_def List.map_filter_simps
        seriesName_def showInt_def showNat.simps)

lemma noFields_not_serialized:
  "lineSerializer n noFields = Inl (quoted ''cpu,host=example.org'' @ '': no serializable fields'')"
  by (simp add: lineSerializer_def noFields_def New_def storeFields_def List.map_filter_simps
        seriesName_def showInt_def showNat.simps)


lemma scanLines_examples:
  "scanLines ''cpu value=42 0\<newline>'' = [''cpu value=42 0\<newline>'']"
  "scanLines ''cpu a=1i 0\<newline>cpu b=true 0\<newline>'' = [''cpu a=1i 0\<newline>'', ''cpu b=true 0\<newline>'']"
  "scanLines ''cpu a=1i 0\<newline>cpu b=tr'' = [''cpu a=1i 0\<newline>'']"
  by (simp_all add: scanLines_def MaxScanTokenSize_def)

text \<open>
  The tests of the client: \<^verbatim>\<open>TestUDP_NewUDPClientNoURL\<close>, the clients the other tests
  obtain from \<^verbatim>\<open>NewUDPClient\<close>, and what their calls of \<^verbatim>\<open>Write\<close> return, write
  and log.
\<close>

lemma NewUDPClient_no_URL: "URL config = None \<Longrightarrow> NewUDPClient config = Inl ErrMissingURL"
  by (simp add: NewUDPClient_def)

lemma NewUDPClient_mockConfig:
  "NewUDPClient (mockConfig 0 dial) = Inr (mockClient 512 dial)"
  "0 < n \<Longrightarrow> NewUDPClient (mockConfig n dial) = Inr (mockClient n dial)"
  by (simp_all add: NewUDPClient_def mockConfig_def mockClient_def DefaultMaxPayloadSize_def)

lemma mockClient_simps:
  "c_url (mockClient n dial) = getURL"
  "c_serializer (mockClient n dial) = lineSerializer n"
  "c_dialer (mockClient n dial) = dial"
  "c_conn (mockClient n dial) = None"
  "connection (mockClient n (Inr w)) = Some (w, [])"
  "connection (mockClient n (Inl e)) = None"
  by (simp_all add: mockClient_def connection_def)

lemma TestUDP_Simple:
  "w_err (udp_Write (mockClient 512 (Inr bufferConn)) [getMetric, getMetric]) = None"
  "concat (w_attempted (udp_Write (mockClient 512 (Inr bufferConn)) [getMetric, getMetric]))
     = ''cpu value=42 0\<newline>'' @ ''cpu value=42 0\<newline>''"
  by (simp_all add: udp_Write_connected[OF mockClient_simps(5)] mockClient_simps
        getMetric_serialized scanLines_examples bufferConn_def)

lemma TestUDP_DialError:
  "w_err (udp_Write (mockClient 512 (Inl ''unsupported scheme'')) [getMetric])
     = Some (''error dialing address [udp://localhost:0]: unsupported scheme'')"
  by (simp add: udp_Write_def mockClient_simps dialError_def getURL_def)

lemma TestUDP_WriteError:
  "w_err (udp_Write (mockClient 512 (Inr refusingConn)) [getMetric]) = Some ''connection refused''"
  "w_closed (udp_Write (mockClient 512 (Inr refusingConn)) [getMetric])"
  by (simp_all add: udp_Write_connected[OF mockClient_simps(5)] mockClient_simps
        getMetric_serialized scanLines_examples refusingConn_def)

lemma TestUDP_ErrorLogging:
  "w_err (udp_Write (mockClient 1 (Inr refusingConn)) [getMetric]) = None"
  "w_logged (udp_Write (mockClient 1 (Inr refusingConn)) [getMetric])
     = [''when writing to [udp://localhost:0] could not serialize metric: ''
          @ quoted ''cpu'' @ '': need more space'']"
  "w_err (udp_Write (mockClient 512 (Inr refusingConn)) [noFields]) = None"
  "w_logged (udp_Write (mockClient 512 (Inr refusingConn)) [noFields])
     = [''when writing to [udp://localhost:0] could not serialize metric: ''
          @ quoted ''cpu,host=example.org'' @ '': no serializable fields'']"
  by (simp_all add: udp_Write_connected[OF mockClient_simps(5)] mockClient_simps
        getMetric_need_more_space[unfolded One_nat_def] noFields_not_serialized logLine_def
        getURL_def)

subsection \<open>The write contract\<close>




subsection \<open>The constructor \<^verbatim>\<open>metric.New\<close>\<close>



text \<open>
  \<^verbatim>\<open>TestRequireMetricEqual\<close>: the metric built from the \<^verbatim>\<open>int\<close> \<open>1\<close> equals the one built
  from \<^verbatim>\<open>int64(1)\<close>, in whatever order the tag map yields the tags.
\<close>

lemma TestRequireMetricEqual:
  "New ''test'' [(''t2'', ''v2''), (''t1'', ''v1'')]
       [(''f1'', V_int 1), (''f2'', V_float64 x), (''f3'', V_string ''v3'')] 0
   = New ''test'' [(''t1'', ''v1''), (''t2'', ''v2'')]
       [(''f1'', V_int64 1), (''f2'', V_float64 x), (''f3'', V_string ''v3'')] 0"
  by (simp add: New_def storeFields_def List.map_filter_simps)




section \<open>MQTT output, Homie datatypes: \<^verbatim>\<open>convertType\<close>\<close>



text \<open>A plain \<^verbatim>\<open>int\<close>, a signed integer, is rejected.\<close>

lemma convertType_rejects_int:
  "convertType render (T_int, ''42'') = Inl (UnknownType T_int) \<and> supportedKind T_int"
  by (simp add: convertType_def render_def)


section \<open>The per-destination buffer\<close>

lemma bounded_NewBuffer: "NewBuffer n = Some b \<Longrightarrow> bounded b \<and> capacity b = n \<and> items b = []"
  by (auto simp: NewBuffer_def bounded_def Len_def split: if_splits)

lemma Push_capacity: "capacity (fst (Push metric b)) = capacity b"
  by (simp add: Push_def)

lemma Push_items:
  "bounded b \<Longrightarrow>
     items (fst (Push metric b)) =
       drop (length (items b @ [metric]) - capacity b) (items b @ [metric])"
  by (cases "items b") (auto simp: Push_def bounded_def Len_def)

lemma Push_bounded: "bounded b \<Longrightarrow> bounded (fst (Push metric b))"
  by (cases "items b") (auto simp: Push_def bounded_def Len_def)

lemma pushAll_capacity: "capacity (pushAll b metrics) = capacity b"
  by (induction metrics arbitrary: b) (simp_all add: Push_capacity)

lemma pushAll_bounded: "bounded b \<Longrightarrow> bounded (pushAll b metrics)"
  by (induction metrics arbitrary: b) (simp_all add: Push_bounded)

lemma Push_Len: "bounded b \<Longrightarrow> Len (fst (Push metric b)) \<le> capacity b"
  by (cases "items b") (auto simp: Push_def bounded_def Len_def)

lemma drop_window:
  assumes "a = length zs - c"
  shows "drop (length (drop a zs @ ys) - c) (drop a zs @ ys)
           = drop (length (zs @ ys) - c) (zs @ ys)"
proof -
  have 1: "drop a zs @ ys = drop a (zs @ ys)"
    using assms by simp
  have 2: "length (drop a (zs @ ys)) - c + a = length (zs @ ys) - c"
    unfolding length_drop length_append assms by linarith
  show ?thesis
    unfolding 1 by (simp only: drop_drop 2)
qed

lemma pushAll_items:
  "bounded b \<Longrightarrow>
     items (pushAll b metrics) =
       drop (length (items b @ metrics) - capacity b) (items b @ metrics)"
proof (induction metrics arbitrary: b)
  case Nil
  then show ?case by (simp add: bounded_def Len_def)
next
  case (Cons metric metrics)
  have "items (pushAll (fst (Push metric b)) metrics) =
      drop (length (items (fst (Push metric b)) @ metrics) - capacity b)
        (items (fst (Push metric b)) @ metrics)"
    using Cons.IH[OF Push_bounded[OF Cons.prems]] by (simp add: Push_capacity)
  also have "\<dots> = drop (length ((items b @ [metric]) @ metrics) - capacity b)
                   ((items b @ [metric]) @ metrics)"
    unfolding Push_items[OF Cons.prems] by (rule drop_window) simp
  finally show ?case by simp
qed

text \<open>
  Claim C1. A buffer made with capacity \<open>n\<close> never holds more than \<open>n\<close> metrics,
  whatever is pushed: every \<open>Push\<close> keeps the bound and the capacity. After a list of
  metrics has been pushed into the new buffer it holds the last \<open>n\<close> of them in push
  order; in particular, after \<open>n + k\<close> pushes with \<open>k > 0\<close>, exactly the last \<open>n\<close>.
\<close>

theorem Buffer_drop_oldest_keeps_last:
  assumes "NewBuffer n = Some (b :: 'a Buffer)"
  shows "Len (pushAll b metrics) \<le> n
       \<and> capacity (pushAll b metrics) = n
       \<and> items (pushAll b metrics) = drop (length metrics - n) metrics
       \<and> (length metrics = n + k \<and> 0 < k \<longrightarrow>
            Len (pushAll b metrics) = n \<and> items (pushAll b metrics) = drop k metrics)
       \<and> (\<forall>(b' :: 'a Buffer) metric. bounded b' \<longrightarrow> Len (fst (Push metric b')) \<le> capacity b'
             \<and> capacity (fst (Push metric b')) = capacity b'
             \<and> bounded (fst (Push metric b')))"
proof -
  from bounded_NewBuffer[OF assms] have b: "bounded b" "capacity b = n" "items b = []" by auto
  have 1: "Len (pushAll b metrics) \<le> n"
    using pushAll_bounded[OF b(1), of metrics] by (simp add: bounded_def pushAll_capacity b(2))
  have 3: "items (pushAll b metrics) = drop (length metrics - n) metrics"
    using pushAll_items[OF b(1), of metrics] by (simp add: b)
  have 4: "length metrics = n + k \<and> 0 < k \<longrightarrow>
            Len (pushAll b metrics) = n \<and> items (pushAll b metrics) = drop k metrics"
    by (auto simp: 3 Len_def)
  have 5: "\<forall>(b' :: 'a Buffer) metric. bounded b' \<longrightarrow> Len (fst (Push metric b')) \<le> capacity b'
             \<and> capacity (fst (Push metric b')) = capacity b'
             \<and> bounded (fst (Push metric b'))"
  proof (intro allI impI conjI)
    fix b' :: "'a Buffer" and metric
    assume "bounded b'"
    then show "Len (fst (Push metric b')) \<le> capacity b'" by (rule Push_Len)
    show "capacity (fst (Push metric b')) = capacity b'" by (rule Push_capacity)
    from \<open>bounded b'\<close> show "bounded (fst (Push metric b'))" by (rule Push_bounded)
  qed
  from 1 3 4 5 show ?thesis by (simp add: pushAll_capacity b(2))
qed

theorem Buffer_drop_oldest_keeps_last_witness:
  "NewBuffer 3 = Some \<lparr>capacity = 3, items = ([] :: string list)\<rparr>
   \<and> items (pushAll \<lparr>capacity = 3, items = []\<rparr> [''A'', ''B'', ''C'', ''D'']) = [''B'', ''C'', ''D'']
   \<and> Len (pushAll \<lparr>capacity = 3, items = []\<rparr> [''A'', ''B'', ''C'', ''D'']) = 3
   \<and> snd (Push ''D'' \<lparr>capacity = 3, items = [''A'', ''B'', ''C'']\<rparr>)"
proof -
  have n: "NewBuffer 3 = Some \<lparr>capacity = 3, items = ([] :: string list)\<rparr>"
    by (simp add: NewBuffer_def)
  have l: "length [''A'', ''B'', ''C'', ''D''] = 3 + 1 \<and> 0 < (1::nat)" by simp
  from Buffer_drop_oldest_keeps_last[OF n, of "[''A'', ''B'', ''C'', ''D'']" 1] l
  have "Len (pushAll \<lparr>capacity = 3, items = []\<rparr> [''A'', ''B'', ''C'', ''D'']) = 3
      \<and> items (pushAll \<lparr>capacity = 3, items = []\<rparr> [''A'', ''B'', ''C'', ''D''])
          = drop 1 [''A'', ''B'', ''C'', ''D'']"
    by blast
  with n show ?thesis by (simp add: Push_def)
qed

end
